theory Spec2Isabelle
  imports Main "HOL-Library.Sublist"
begin

section \<open>Values\<close>

text \<open>
  The values that reach the components are strings and whatever else \<open>res.json()\<close> can
  yield. A number is held as the text that \<open>ToString\<close> gives for it (\<open>0\<close> and \<open>-0\<close> both
  give \<open>0\<close>; two numbers are equal exactly when their texts are). An array or object carries
  a label that stands for its identity: parsing gives every array and object a label of its
  own, so that \<open>=\<close> on these values is \<open>===\<close>, which is also the comparison of \<open>Set\<close>
  for them. An object is held as the list of its own properties, each key once.
\<close>

datatype json =
    JNull
  | JBool bool
  | JNum string
  | JStr string
  | JArr nat "json list"
  | JObj nat "(string \<times> json) list"

text \<open>
  A city is an entry of the list that \<open>/cities\<close> returned, or one of the fallback strings:
  an identifier \<open>JStr c\<close> when the backend keeps to its format, any value otherwise.
\<close>

type_synonym city = json

text \<open>Truthiness of these values: \<open>null\<close>, \<open>false\<close>, zero and the empty string are falsy.\<close>

fun js_truthy :: "json \<Rightarrow> bool" where
  "js_truthy JNull = False"
| "js_truthy (JBool b) = b"
| "js_truthy (JNum t) = (t \<noteq> ''0'')"
| "js_truthy (JStr s) = (s \<noteq> [])"
| "js_truthy (JArr l xs) = True"
| "js_truthy (JObj l ps) = True"

text \<open>\<open>Array.prototype.join\<close> on the texts of the elements; \<open>None\<close> is a thrown TypeError.\<close>

fun js_join :: "string option list \<Rightarrow> string option" where
  "js_join [] = Some []"
| "js_join [x] = x"
| "js_join (x # y # ys) =
     (case x of
        None \<Rightarrow> None
      | Some a \<Rightarrow> (case js_join (y # ys) of None \<Rightarrow> None | Some b \<Rightarrow> Some (a @ '','' @ b)))"

text \<open>
  The conversion to a string that a template literal, a property key and the key of a
  React element apply. An array is joined with commas, \<open>null\<close> elements giving the empty
  text. An object gives \<open>[object Object]\<close> through the inherited \<open>toString\<close>; when it has an
  own property \<open>toString\<close> (never callable in parsed JSON), the inherited one is hidden and
  the conversion throws a TypeError, here \<open>None\<close>.
\<close>

fun js_toString :: "json \<Rightarrow> string option" where
  "js_toString JNull = Some ''null''"
| "js_toString (JBool b) = Some (if b then ''true'' else ''false'')"
| "js_toString (JNum t) = Some t"
| "js_toString (JStr s) = Some s"
| "js_toString (JArr l xs) =
     js_join (map (\<lambda>x. if x = JNull then Some [] else js_toString x) xs)"
| "js_toString (JObj l ps) =
     (if ''toString'' \<in> fst ` set ps then None else Some ''[object Object]'')"

section \<open>Carousel\<close>

text \<open>
  The component \<open>Carousel\<close> that \<open>Home\<close> imports; its source is the second document of
  \<^verbatim>\<open>src/frontend/vite.config.js\<close> (lines 17 to 82).
\<close>

text \<open>
  A JavaScript \<open>Set\<close> iterates in insertion order and \<open>add\<close> leaves the set as it is when
  the value is already a member. It is modelled by the list of its members in insertion
  order; \<open>new Set(xs)\<close> adds the entries of \<open>xs\<close> from left to right, and spreading the
  set (\<open>[...s]\<close>) reads that list.
\<close>

definition Set_add :: "'a list \<Rightarrow> 'a \<Rightarrow> 'a list" where
  "Set_add s x = (if x \<in> set s then s else s @ [x])"

definition new_Set :: "'a list \<Rightarrow> 'a list" where
  "new_Set xs = foldl Set_add [] xs"

text \<open>The literal tail of \<open>allCities\<close> (line 40).\<close>

definition fallbackCities :: "city list" where
  "fallbackCities = [JStr ''leeds1'', JStr ''leeds2'', JStr ''london1'', JStr ''london2'']"

text \<open>
  The body of the effect of \<open>Carousel\<close>:
  \<^verbatim>\<open>
    const allCities = [...cities, 'leeds1', 'leeds2', 'london1', 'london2'];
    const filteredCities = allCities.filter(city => city !== selectedCity);
    const finalCities = [...new Set(filteredCities)].slice(0, 8);
    setDisplayedCities(finalCities);
  \<close>
  \<open>cities\<close> is here the list of the entries of the array; the component is only rendered
  below a \<open>Home\<close> whose grid has mapped over that array.
\<close>

definition finalCities :: "city list \<Rightarrow> city \<Rightarrow> city list" where
  "finalCities cities selectedCity =
     (let allCities = cities @ fallbackCities;
          filteredCities = filter (\<lambda>city. city \<noteq> selectedCity) allCities
      in take 8 (new_Set filteredCities))"

record carousel_state =
  displayedCities :: "city list"

text \<open>\<open>useState([])\<close>: what the component shows before its effect has run.\<close>

definition Carousel_init :: carousel_state where
  "Carousel_init = \<lparr>displayedCities = []\<rparr>"

text \<open>
  The effect runs after the first render and after every render in which \<open>cities\<close> or
  \<open>selectedCity\<close> changed; it overwrites \<open>displayedCities\<close>.
\<close>

definition Carousel_effect :: "city list \<Rightarrow> city \<Rightarrow> carousel_state \<Rightarrow> carousel_state" where
  "Carousel_effect cities selectedCity st = st\<lparr>displayedCities := finalCities cities selectedCity\<rparr>"

subsection \<open>The subset as the specification words it\<close>

text \<open>
  De-duplication that keeps first occurrences: an entry is kept where it first stands and
  every later entry equal to it is dropped.
\<close>

fun dedup_first :: "'a list \<Rightarrow> 'a list" where
  "dedup_first [] = []"
| "dedup_first (x # xs) = x # dedup_first (filter (\<lambda>y. y \<noteq> x) xs)"

text \<open>
  Concatenate the city list with the fallback list, remove every entry equal to the
  selection, de-duplicate, truncate to 8.
\<close>

definition carousel_spec :: "city list \<Rightarrow> city \<Rightarrow> city list" where
  "carousel_spec cities selectedCity =
     take 8 (dedup_first (removeAll selectedCity (cities @ fallbackCities)))"

section \<open>Property lookup and rendered children\<close>

text \<open>
  \<open>cityNames[city]\<close> reads a property of an object literal. The result is the own property
  when the literal has that key; otherwise the lookup goes on to \<open>Object.prototype\<close>, which
  every object literal inherits from, and yields the inherited function (or, for the
  accessor \<open>__proto__\<close>, the prototype object); only when that fails too is it
  \<open>undefined\<close>.
\<close>

datatype js_value =
    Undefined
  | Str string
  | Fun string    \<comment> \<open>a function inherited from \<open>Object.prototype\<close>, by property name\<close>
  | Obj string    \<comment> \<open>a plain object, by description\<close>
  | Val json      \<comment> \<open>a city as it stands in the list\<close>

text \<open>The function-valued properties of \<open>Object.prototype\<close> (ECMAScript, with Annex B).\<close>

definition Object_prototype_functions :: "string list" where
  "Object_prototype_functions =
     [''constructor'', ''hasOwnProperty'', ''isPrototypeOf'', ''propertyIsEnumerable'',
      ''toLocaleString'', ''toString'', ''valueOf'',
      ''__defineGetter__'', ''__defineSetter__'', ''__lookupGetter__'', ''__lookupSetter__'']"

definition js_get :: "(string \<times> string) list \<Rightarrow> string \<Rightarrow> js_value" where
  "js_get obj k =
     (case map_of obj k of
        Some v \<Rightarrow> Str v
      | None \<Rightarrow>
          if k \<in> set Object_prototype_functions then Fun k
          else if k = ''__proto__'' then Obj ''Object.prototype''
          else Undefined)"

text \<open>Truthiness: \<open>undefined\<close> and the empty string are falsy, functions and objects truthy.\<close>

fun truthy :: "js_value \<Rightarrow> bool" where
  "truthy Undefined = False"
| "truthy (Str s) = (s \<noteq> [])"
| "truthy (Fun f) = True"
| "truthy (Obj d) = True"
| "truthy (Val j) = js_truthy j"

text \<open>\<open>a || b\<close>\<close>

definition js_or :: "js_value \<Rightarrow> js_value \<Rightarrow> js_value" where
  "js_or a b = (if truthy a then a else b)"

text \<open>
  What React makes of a value placed in braces as the child of an element: a string or a
  number is a text node; \<open>undefined\<close>, \<open>null\<close> and booleans render nothing; a function
  renders nothing (React only warns); the entries of an array are rendered one after the
  other; a plain object makes the render throw.
\<close>

datatype rendered = Text string | Nothing | Throws | Fragment "rendered list"

fun React_json :: "json \<Rightarrow> rendered" where
  "React_json JNull = Nothing"
| "React_json (JBool b) = Nothing"
| "React_json (JNum t) = Text t"
| "React_json (JStr s) = Text s"
| "React_json (JArr l xs) =
     (if Throws \<in> set (map React_json xs) then Throws else Fragment (map React_json xs))"
| "React_json (JObj l ps) = Throws"

fun React_child :: "js_value \<Rightarrow> rendered" where
  "React_child Undefined = Nothing"
| "React_child (Str s) = Text s"
| "React_child (Fun f) = Nothing"
| "React_child (Obj d) = Throws"
| "React_child (Val j) = React_json j"

text \<open>
  The en dash of the display names, as its three UTF-8 bytes (\<open>string\<close> is a list of
  bytes).
\<close>

definition en_dash :: string where
  "en_dash = [CHR 0xE2, CHR 0x80, CHR 0x93]"

text \<open>
  The registry of display names; the same literal stands in \<open>Home\<close> (Home.jsx, line 14), in
  \<open>ThumbnailGrid\<close> (\<^verbatim>\<open>src/unnamed/part_000\<close>, line 3) and in \<open>Carousel\<close> (line 20). It has
  no duplicate key, so the first entry found is the property.
\<close>

definition cityNames :: "(string \<times> string) list" where
  "cityNames =
     [(''leeds1'', ''Leeds '' @ en_dash @ '' Train Station''),
      (''leeds2'', ''Leeds '' @ en_dash @ '' Beeston''),
      (''leeds3'', ''Leeds '' @ en_dash @ '' Stourton''),
      (''leeds4'', ''Leeds '' @ en_dash @ '' Burley''),
      (''london1'', ''London '' @ en_dash @ '' Charing Cross''),
      (''london2'', ''London '' @ en_dash @ '' Islington''),
      (''london3'', ''London '' @ en_dash @ '' Hackney''),
      (''london4'', ''London '' @ en_dash @ '' Islington''),
      (''london5'', ''London '' @ en_dash @ '' Canning Town''),
      (''london6'', ''London '' @ en_dash @ '' Seven Sisters''),
      (''london7'', ''London '' @ en_dash @ '' Willesden'')]"

definition cityDetails :: "(string \<times> string) list" where
  "cityDetails =
     [(''leeds1'', ''Specific text 1''),
      (''leeds2'', ''Specific text 2''),
      (''leeds3'', ''Specific text 3''),
      (''leeds4'', ''Specific text 4''),
      (''london1'', ''Specific text 5''),
      (''london2'', ''Specific text 6''),
      (''london3'', ''Specific text 7''),
      (''london4'', ''Specific text 8''),
      (''london5'', ''Specific text 9''),
      (''london6'', ''Specific text 10''),
      (''london7'', ''Specific text 11'')]"

text \<open>
  \<^verbatim>\<open>`/static/preprocessing/${city}_heatmap.html`\<close>, on the text that the city converts
  to.
\<close>

definition heatmap_url :: "string \<Rightarrow> string" where
  "heatmap_url t = ''/static/preprocessing/'' @ t @ ''_heatmap.html''"

section \<open>Errors\<close>

text \<open>
  The errors that can be thrown. In the fetch chain: the error thrown for a response that
  is not ok, the rejection of \<open>fetch\<close> itself, the rejection of \<open>res.json()\<close>, and the
  TypeError of reading \<open>.cities\<close> of \<open>null\<close>. In a render or a handler: the TypeError of
  calling \<open>cities.map\<close> on a value that has no such function, the TypeError of converting
  an object to a string, and the error that React throws for an object as a child.
\<close>

datatype js_error =
    HttpError nat
  | NetworkError
  | JsonSyntaxError
  | NullPropertyError
  | NotAFunction
  | NotPrimitive
  | InvalidChild

text \<open>
  A result that may be a thrown error, and running a list of such results up to the
  first error.
\<close>

fun all_or_error :: "('e + 'a) list \<Rightarrow> 'e + 'a list" where
  "all_or_error [] = Inr []"
| "all_or_error (x # xs) =
     (case x of
        Inl e \<Rightarrow> Inl e
      | Inr a \<Rightarrow> (case all_or_error xs of Inl e \<Rightarrow> Inl e | Inr as \<Rightarrow> Inr (a # as)))"

text \<open>What a render shows, when it did not throw.\<close>

definition shown :: "'e + 'a \<Rightarrow> 'a option" where
  "shown r = (case r of Inl e \<Rightarrow> None | Inr v \<Rightarrow> Some v)"

section \<open>ThumbnailGrid and the items of the Carousel\<close>

text \<open>
  One embed with its hover label. \<open>ThumbnailGrid\<close> (\<^verbatim>\<open>src/unnamed/part_000\<close>, lines 20 to
  39) and \<open>Carousel\<close> (lines 56 to 75) render the same
  element per city (at 200px and 150px): an iframe on the heatmap document and a label
  \<open>{cityNames[city] || city}\<close> whose click calls \<open>onSelect(city)\<close>. The key, the two
  template literals and the property key convert the city to a string, which throws for
  some objects; the label, when it is an object, makes React throw.
\<close>

record thumbnail =
  thumb_key :: string
  thumb_src :: string
  thumb_alt :: string
  thumb_label :: rendered
  thumb_onSelect :: city

definition thumbnail_of :: "city \<Rightarrow> js_error + thumbnail" where
  "thumbnail_of c =
     (case js_toString c of
        None \<Rightarrow> Inl NotPrimitive
      | Some t \<Rightarrow>
          if React_child (js_or (js_get cityNames t) (Val c)) = Throws then Inl InvalidChild
          else Inr \<lparr>thumb_key = t,
                    thumb_src = heatmap_url t,
                    thumb_alt = t @ '' map'',
                    thumb_label = React_child (js_or (js_get cityNames t) (Val c)),
                    thumb_onSelect = c\<rparr>)"

text \<open>
  \<open>cities.map((city) => ...)\<close>: only an array has \<open>map\<close>; for any other value the call
  throws.
\<close>

definition ThumbnailGrid :: "json \<Rightarrow> js_error + thumbnail list" where
  "ThumbnailGrid cs =
     (case cs of
        JArr l xs \<Rightarrow> all_or_error (map thumbnail_of xs)
      | _ \<Rightarrow> Inl NotAFunction)"

text \<open>\<open>displayedCities.map((city) => ...)\<close>\<close>

definition Carousel :: "carousel_state \<Rightarrow> js_error + thumbnail list" where
  "Carousel st = all_or_error (map thumbnail_of (displayedCities st))"

section \<open>Home (src/frontend/src/components/Home.jsx)\<close>

text \<open>
  What the console holds: \<open>console.error(prefix, err.message)\<close>, recorded with the error
  whose message it prints, and the report of an error that a handler threw and nothing
  caught.
\<close>

datatype console_entry = ConsoleError string js_error | Uncaught js_error

text \<open>The body of a response: text that \<open>res.json()\<close> rejects, or the value it parses to.\<close>

datatype body = NotJson | Json json

text \<open>The outcome of \<open>fetch\<close>: it rejects, or it resolves to a response with a status.\<close>

datatype response = FetchRejected | HttpResponse nat body

text \<open>\<open>res.ok\<close>\<close>

definition res_ok :: "nat \<Rightarrow> bool" where
  "res_ok status = (200 \<le> status \<and> status \<le> 299)"

text \<open>
  The location of the browser, as far as this code decides it: the path that the router
  reported when the application was loaded or when the user went back or forward in the
  history, or the location that a call \<open>navigate(to)\<close> produced. The latter is kept as the
  text \<open>to\<close> that the code passed: the path that results is what the URL parser of the
  browser makes of that text (it resolves dot segments and percent-encodes, so that
  \<open>/map/..\<close> and \<open>/map/a b\<close> do not result in these paths).
\<close>

datatype location = Reported string | NavigatedTo string

text \<open>
  The four \<open>useState\<close> cells of \<open>Home\<close> (\<open>selectedCity\<close> starts as \<open>null\<close>), and what
  surrounds them: the location, the console, the requests sent and whether the request
  is still pending, and the overlay frames whose exit animation is running. Such a frame
  is held with its key, with the \<open>selectedCity\<close> that its own handlers closed over when it
  was last rendered, and with the \<open>isClosing\<close> that the \<open>onExitComplete\<close> of the render in
  which its exit began closed over.
\<close>

record home_state =
  cities :: json
  selectedCity :: json
  isMapVisible :: bool
  isClosing :: bool
  location :: location
  console :: "console_entry list"
  requests :: "string list"
  awaiting :: bool
  exiting :: "(string \<times> json \<times> bool) list"

text \<open>The state of a fresh \<open>Home\<close>, the application having been loaded at \<open>path\<close>.\<close>

definition Home_init :: "string \<Rightarrow> home_state" where
  "Home_init path =
     \<lparr>cities = JArr 0 [], selectedCity = JNull, isMapVisible = False, isClosing = False,
      location = Reported path, console = [], requests = [], awaiting = False, exiting = []\<rparr>"

text \<open>The mount effect (dependency list \<open>[]\<close>) sends the request.\<close>

definition useEffect_mount :: "home_state \<Rightarrow> home_state" where
  "useEffect_mount s =
     s\<lparr>requests := requests s @ [''http://localhost:8000/cities''], awaiting := True\<rparr>"

text \<open>
  \<^verbatim>\<open>.then((res) => { if (!res.ok) throw new Error(...); return res.json(); })\<close>
\<close>

definition then_json :: "nat \<Rightarrow> body \<Rightarrow> js_error + json" where
  "then_json status b =
     (if \<not> res_ok status then Inl (HttpError status)
      else case b of NotJson \<Rightarrow> Inl JsonSyntaxError | Json d \<Rightarrow> Inr d)"

text \<open>
  \<open>data.cities\<close>: reading a property of \<open>null\<close> throws; an object gives its own property
  of that name; every other value, and an object without it, gives \<open>undefined\<close> (nothing
  that these values inherit is called \<open>cities\<close>).
\<close>

definition data_cities :: "json \<Rightarrow> js_error + json option" where
  "data_cities d =
     (case d of
        JNull \<Rightarrow> Inl NullPropertyError
      | JObj l ps \<Rightarrow> Inr (map_of ps ''cities'')
      | _ \<Rightarrow> Inr None)"

text \<open>
  \<^verbatim>\<open>.then((data) => setCities(data.cities || []))\<close>: a truthy member is stored whatever
  it is; otherwise a new empty array is.
\<close>

definition then_setCities :: "json \<Rightarrow> home_state \<Rightarrow> js_error + home_state" where
  "then_setCities d s =
     (case data_cities d of
        Inl e \<Rightarrow> Inl e
      | Inr None \<Rightarrow> Inr (s\<lparr>cities := JArr 0 []\<rparr>)
      | Inr (Some v) \<Rightarrow> Inr (s\<lparr>cities := (if js_truthy v then v else JArr 0 [])\<rparr>))"

text \<open>\<^verbatim>\<open>.catch((err) => console.error('Error fetching cities:', err.message))\<close>\<close>

definition catch_log :: "js_error \<Rightarrow> home_state \<Rightarrow> home_state" where
  "catch_log e s = s\<lparr>console := console s @ [ConsoleError ''Error fetching cities:'' e]\<rparr>"

text \<open>
  The whole chain, once the request has settled. \<open>Inl\<close> would be a rejection that no
  handler took; \<open>Inr\<close> is the state after the chain has been fulfilled.
\<close>

definition fetch_settled :: "response \<Rightarrow> home_state \<Rightarrow> js_error + home_state" where
  "fetch_settled r s =
     (let chain =
        (case r of
           FetchRejected \<Rightarrow> Inl NetworkError
         | HttpResponse status b \<Rightarrow>
             (case then_json status b of
                Inl e \<Rightarrow> Inl e
              | Inr d \<Rightarrow> then_setCities d s))
      in case chain of Inl e \<Rightarrow> Inr (catch_log e s) | Inr s' \<Rightarrow> Inr s')"

text \<open>
  \<^verbatim>\<open>
  const handleSelect = (city) => {
    if (selectedCity === city) { setIsClosing(true); setIsMapVisible(false); }
    else { setSelectedCity(city); setIsMapVisible(true); setIsClosing(false);
           navigate(`/map/${city}`); }
  };
  \<close>
  The function is made anew in every render and closes over the \<open>selectedCity\<close> of that
  render, here the argument \<open>seen\<close>. When the template literal throws, the three updates
  before it have been queued and are applied, and \<open>navigate\<close> is not called.
\<close>

definition handleSelect :: "json \<Rightarrow> city \<Rightarrow> home_state \<Rightarrow> home_state" where
  "handleSelect seen c s =
     (if seen = c
      then s\<lparr>isClosing := True, isMapVisible := False\<rparr>
      else (case js_toString c of
              Some t \<Rightarrow>
                s\<lparr>selectedCity := c, isMapVisible := True, isClosing := False,
                  location := NavigatedTo (''/map/'' @ t)\<rparr>
            | None \<Rightarrow>
                s\<lparr>selectedCity := c, isMapVisible := True, isClosing := False,
                  console := console s @ [Uncaught NotPrimitive]\<rparr>))"

text \<open>
  \<^verbatim>\<open>onExitComplete={() => { if (isClosing) { setSelectedCity(null); navigate('/'); } }}\<close>
  This function too is made anew in every render; \<open>closing\<close> is the \<open>isClosing\<close> that the
  one at hand closed over.
\<close>

definition onExitComplete :: "bool \<Rightarrow> home_state \<Rightarrow> home_state" where
  "onExitComplete closing s =
     (if closing then s\<lparr>selectedCity := JNull, location := NavigatedTo ''/''\<rparr> else s)"

text \<open>
  The overlay: the \<open>motion.div\<close> with \<open>key={selectedCity}\<close>, holding the map (the inner
  \<open>MapView\<close> of Home.jsx: iframe source and title), the heading
  \<open>{cityNames[selectedCity]}\<close>, the paragraph
  \<open>{cityDetails[selectedCity] || "No detailed information available."}\<close> and the
  Carousel, shown as it stands once its effect has run.
\<close>

record overlay_view =
  frame_key :: string
  map_src :: string
  map_title :: string
  heading :: rendered
  details :: rendered
  carousel :: "thumbnail list"

definition overlay_of :: "city list \<Rightarrow> city \<Rightarrow> js_error + overlay_view" where
  "overlay_of cs c =
     (case js_toString c of
        None \<Rightarrow> Inl NotPrimitive
      | Some t \<Rightarrow>
          if React_child (js_get cityNames t) = Throws then Inl InvalidChild
          else if React_child (js_or (js_get cityDetails t)
                                 (Str ''No detailed information available.'')) = Throws
          then Inl InvalidChild
          else (case Carousel (Carousel_effect cs c Carousel_init) of
                  Inl e \<Rightarrow> Inl e
                | Inr items \<Rightarrow>
                    Inr \<lparr>frame_key = t,
                         map_src = heatmap_url t,
                         map_title = t @ '' heatmap'',
                         heading = React_child (js_get cityNames t),
                         details = React_child (js_or (js_get cityDetails t)
                                     (Str ''No detailed information available.'')),
                         carousel = items\<rparr>))"

text \<open>
  What \<open>Home\<close> returns, or the error that the render throws (React then unmounts the
  whole tree): the grid; what stands in the place of the overlay when \<open>selectedCity\<close> is
  falsy (in \<open>{selectedCity && ...}\<close> React renders the falsy value itself, which shows for
  the number zero only); whether the \<open>AnimatePresence\<close> container is there; and its keyed
  child, the overlay (\<open>isMapVisible && selectedCity && ...\<close>). The body of \<open>Home\<close> converts
  the selection to a string before the grid is rendered.
\<close>

record home_view =
  grid :: "thumbnail list"
  falsy_child :: rendered
  presence_mounted :: bool
  overlay :: "overlay_view option"

definition Home :: "home_state \<Rightarrow> js_error + home_view" where
  "Home s =
     (if js_truthy (selectedCity s) \<and> isMapVisible s \<and> js_toString (selectedCity s) = None
      then Inl NotPrimitive
      else case ThumbnailGrid (cities s) of
        Inl e \<Rightarrow> Inl e
      | Inr g \<Rightarrow>
          if \<not> js_truthy (selectedCity s)
          then Inr \<lparr>grid = g, falsy_child = React_json (selectedCity s),
                    presence_mounted = False, overlay = None\<rparr>
          else if \<not> isMapVisible s
          then Inr \<lparr>grid = g, falsy_child = Nothing, presence_mounted = True, overlay = None\<rparr>
          else (case cities s of
                  JArr l cs \<Rightarrow>
                    (case overlay_of cs (selectedCity s) of
                       Inl e \<Rightarrow> Inl e
                     | Inr ov \<Rightarrow>
                         Inr \<lparr>grid = g, falsy_child = Nothing, presence_mounted = True,
                              overlay = Some ov\<rparr>)
                | _ \<Rightarrow> Inl NotAFunction))"

text \<open>The key of the overlay frame that a state shows, if its render shows one.\<close>

definition frame_of :: "home_state \<Rightarrow> string option" where
  "frame_of s = (case Home s of Inl e \<Rightarrow> None | Inr v \<Rightarrow> map_option frame_key (overlay v))"

text \<open>Whether the render of a state has the \<open>AnimatePresence\<close> container.\<close>

definition presence_of :: "home_state \<Rightarrow> bool" where
  "presence_of s = (case Home s of Inl e \<Rightarrow> False | Inr v \<Rightarrow> presence_mounted v)"

text \<open>
  React keeps a keyed child mounted from one render to the next exactly when a child with
  the same key stands there in both; a child under a new key is a new mount, and the old
  one is unmounted (line 115 of Home.jsx: "Ensures re-mount for exit animation"). So the
  overlay frame that \<open>s\<close> shows is still the mounted frame in \<open>s'\<close> when both show a
  frame, under the same key.
\<close>

definition frame_stays :: "home_state \<Rightarrow> home_state \<Rightarrow> bool" where
  "frame_stays s s' = (case frame_of s of None \<Rightarrow> False | Some k \<Rightarrow> frame_of s' = Some k)"

text \<open>
  What \<open>AnimatePresence\<close> does when \<open>Home\<close> has gone from state \<open>s\<close> to state \<open>s'\<close> and is
  rendered again. When the container is no longer there (or the render threw), every
  frame is gone at once. Otherwise a frame that is shown again under its key is no longer
  exiting, and the frame that \<open>s\<close> showed, when \<open>s'\<close> does not show it, starts its exit:
  its handlers are those of its last render, in \<open>s\<close>, and the \<open>onExitComplete\<close> that will
  be called at the end is the one of this render, in \<open>s'\<close>.
\<close>

definition commit :: "home_state \<Rightarrow> home_state \<Rightarrow> home_state" where
  "commit s s' =
     (if \<not> presence_of s' then s'\<lparr>exiting := []\<rparr>
      else s'\<lparr>exiting :=
             filter (\<lambda>(k, seen, closing). Some k \<noteq> frame_of s') (exiting s') @
             (case frame_of s of
                None \<Rightarrow> []
              | Some k \<Rightarrow> if Some k \<noteq> frame_of s' then [(k, selectedCity s, isClosing s')] else [])\<rparr>)"

text \<open>
  The events that change the state of \<open>Home\<close>: a click that reaches the \<open>handleSelect\<close>
  of the current render (from the grid, or from the carousel or the close button of the
  overlay shown); a click in a frame that is exiting, which reaches the \<open>handleSelect\<close>
  of that frame's last render; the end of the exit animation of a frame; the settling
  of the request; and a change of the location from outside (back or forward in the
  history), which \<open>Home\<close> does not listen to. Which of the elements can be clicked at a
  moment is not decided here, and a sequence of events is not cut off after a render has
  thrown (when nothing is left to click): more sequences are allowed than a user can
  produce. The end of an exit calls \<open>onExitComplete\<close> only when no other frame is still
  exiting.
\<close>

datatype event =
    Select city
  | SelectInExiting string city
  | ExitEnd string
  | Settled response
  | RouteChanged string

fun step :: "home_state \<Rightarrow> event \<Rightarrow> home_state" where
  "step s (Select c) = commit s (handleSelect (selectedCity s) c s)"
| "step s (SelectInExiting k c) =
     (case find (\<lambda>(k', seen, closing). k' = k) (exiting s) of
        None \<Rightarrow> s
      | Some (k', seen, closing) \<Rightarrow> commit s (handleSelect seen c s))"
| "step s (ExitEnd k) =
     (case find (\<lambda>(k', seen, closing). k' = k) (exiting s) of
        None \<Rightarrow> s
      | Some (k', seen, closing) \<Rightarrow>
          if filter (\<lambda>(k', seen, closing). k' \<noteq> k) (exiting s) = []
          then commit (s\<lparr>exiting := []\<rparr>) (onExitComplete closing (s\<lparr>exiting := []\<rparr>))
          else s\<lparr>exiting := filter (\<lambda>(k', seen, closing). k' \<noteq> k) (exiting s)\<rparr>)"
| "step s (Settled r) =
     (if awaiting s
      then (case fetch_settled r s of
              Inl e \<Rightarrow> s\<lparr>awaiting := False\<rparr>
            | Inr s' \<Rightarrow> commit s (s'\<lparr>awaiting := False\<rparr>))
      else s)"
| "step s (RouteChanged p) = s\<lparr>location := Reported p\<rparr>"

definition run :: "home_state \<Rightarrow> event list \<Rightarrow> home_state" where
  "run s evs = foldl step s evs"

section \<open>Routes\<close>

text \<open>
  The city that a route names, in the words of the specification: the per-city route is
  \<open>/map/{city}\<close>, every other route names none.
\<close>

definition route_city :: "string \<Rightarrow> string option" where
  "route_city path = (if prefix ''/map/'' path then Some (drop 5 path) else None)"

text \<open>
  The texts that every URL parser leaves as they are when they are navigated to: an
  absolute path of ASCII letters, digits, hyphens, underscores and slashes that does not
  begin with two slashes. Such a text has no dot segment, nothing to percent-encode, no
  query and no fragment.
\<close>

definition url_plain :: "string \<Rightarrow> bool" where
  "url_plain t =
     (prefix ''/'' t \<and> \<not> prefix ''//'' t \<and>
      list_all (\<lambda>ch. ch \<in> set ''abcdefghijklmnopqrstuvwxyzABCDEFGHIJKLMNOPQRSTUVWXYZ0123456789-_/'') t)"

text \<open>
  The path of a location, where this model decides it: the reported path, or the text
  navigated to when it is plain. For other texts the path depends on the URL parser and
  is left open (\<open>None\<close>).
\<close>

definition location_path :: "location \<Rightarrow> string option" where
  "location_path loc =
     (case loc of
        Reported p \<Rightarrow> Some p
      | NavigatedTo t \<Rightarrow> if url_plain t then Some t else None)"

section \<open>MapView (components/MapView.jsx) and App (src/frontend/src/App.jsx)\<close>

text \<open>
  The standalone view. \<open>useParams()\<close> gives \<open>city\<close> as a string, or \<open>undefined\<close> when the
  matched route has no such parameter; \<open>!city\<close> holds for \<open>undefined\<close> and for the empty
  string.
\<close>

datatype mapview = ErrorDiv string | MapFrame string string

definition MapView :: "string option \<Rightarrow> mapview" where
  "MapView param =
     (case param of
        None \<Rightarrow> ErrorDiv ''Error: No city parameter provided.''
      | Some c \<Rightarrow>
          if c = [] then ErrorDiv ''Error: No city parameter provided.''
          else MapFrame (heatmap_url c) (c @ '' heatmap''))"

text \<open>
  A route pattern that ends in \<open>/*\<close> matches its base and every path below it; any other
  pattern used here would match itself only.
\<close>

definition route_matches :: "string \<Rightarrow> string \<Rightarrow> bool" where
  "route_matches pattern path =
     (if suffix ''/*'' pattern
      then (let base = take (length pattern - 2) pattern
            in path = base \<or> prefix (base @ ''/'') path)
      else path = pattern)"

text \<open>
  What the application shows at a path. \<open>App\<close> has one route, \<open>path="/*"\<close> with element
  \<open>Home\<close>; the import of \<open>MapView\<close> is commented out and no route mounts it, so
  \<open>MapViewPage\<close> (what a route bound to \<open>MapView\<close> would show) is never the result.
\<close>

datatype page = HomePage "js_error + home_view" | MapViewPage mapview | NoMatch

definition App :: "string \<Rightarrow> page" where
  "App path = (if route_matches ''/*'' path then HomePage (Home (Home_init path)) else NoMatch)"

section \<open>Scenarios and conditions used in the statements\<close>

text \<open>
  The body that the backend sends when it keeps to its format: an object whose \<open>cities\<close>
  member is the array of the identifiers \<open>ids\<close>.
\<close>

definition cities_body :: "string list \<Rightarrow> body" where
  "cities_body ids = Json (JObj 0 [(''cities'', JArr 1 (map JStr ids))])"

text \<open>
  The application loaded at \<open>path\<close>, the request sent, and \<open>/cities\<close> having answered
  200 with the identifiers \<open>ids\<close>.
\<close>

definition loaded_at :: "string \<Rightarrow> string list \<Rightarrow> home_state" where
  "loaded_at path ids =
     run (useEffect_mount (Home_init path)) [Settled (HttpResponse 200 (cities_body ids))]"

text \<open>The same, with the thumbnail of the identifier \<open>c\<close> clicked in the grid.\<close>

definition opened_on :: "string \<Rightarrow> string list \<Rightarrow> string \<Rightarrow> home_state" where
  "opened_on path ids c = step (loaded_at path ids) (Select (JStr c))"

text \<open>The render of a state does not throw.\<close>

definition renders :: "home_state \<Rightarrow> bool" where
  "renders s = (shown (Home s) \<noteq> None)"

text \<open>
  The failures of the request: the fetch rejects, the status is outside 2xx, the body is
  not JSON, or the body is \<open>null\<close>.
\<close>

definition fetch_fails :: "response \<Rightarrow> bool" where
  "fetch_fails r =
     (case r of
        FetchRejected \<Rightarrow> True
      | HttpResponse status b \<Rightarrow> \<not> res_ok status \<or> b = NotJson \<or> b = Json JNull)"

text \<open>
  A response that is ok and parses, to a value without a truthy \<open>cities\<close> member: a body
  that is JSON but not of the expected shape.
\<close>

definition no_cities_member :: "response \<Rightarrow> bool" where
  "no_cities_member r =
     (case r of
        FetchRejected \<Rightarrow> False
      | HttpResponse status b \<Rightarrow>
          res_ok status \<and>
          (case b of
             NotJson \<Rightarrow> False
           | Json d \<Rightarrow>
               (case data_cities d of
                  Inl e \<Rightarrow> False
                | Inr None \<Rightarrow> True
                | Inr (Some v) \<Rightarrow> \<not> js_truthy v)))"

text \<open>
  The location is the one that the code wrote for the selection: the location navigated
  to with \<open>/map/{city}\<close> while the identifier \<open>city\<close> is selected, the root while nothing
  is.
\<close>

definition location_written :: "home_state \<Rightarrow> bool" where
  "location_written s =
     (case selectedCity s of
        JNull \<Rightarrow> location s = Reported ''/'' \<or> location s = NavigatedTo ''/''
      | JStr c \<Rightarrow> location s = NavigatedTo (''/map/'' @ c)
      | _ \<Rightarrow> False)"

text \<open>
  Events of an application whose list holds identifiers only and whose user does not
  change the location from outside: every click selects a string.
\<close>

fun identifier_event :: "event \<Rightarrow> bool" where
  "identifier_event (Select c) = (case c of JStr i \<Rightarrow> True | _ \<Rightarrow> False)"
| "identifier_event (SelectInExiting k c) = (case c of JStr i \<Rightarrow> True | _ \<Rightarrow> False)"
| "identifier_event (ExitEnd k) = True"
| "identifier_event (Settled r) = True"
| "identifier_event (RouteChanged p) = False"

text \<open>Readings of a render, \<open>None\<close> when it threw or shows no overlay.\<close>

definition grid_labels :: "home_state \<Rightarrow> rendered list option" where
  "grid_labels s = map_option (map thumb_label \<circ> grid) (shown (Home s))"

definition shown_overlay :: "home_state \<Rightarrow> overlay_view option" where
  "shown_overlay s = (case Home s of Inl e \<Rightarrow> None | Inr v \<Rightarrow> overlay v)"

definition carousel_labels :: "home_state \<Rightarrow> rendered list option" where
  "carousel_labels s = map_option (map thumb_label \<circ> carousel) (shown_overlay s)"

section \<open>Facts about the insertion-ordered set\<close>

lemma Set_add_member: "x \<in> set s \<Longrightarrow> Set_add s x = s"
  by (simp add: Set_add_def)

lemma Set_add_fresh: "x \<notin> set s \<Longrightarrow> Set_add s x = s @ [x]"
  by (simp add: Set_add_def)

lemma foldl_Set_add_dedup:
  "foldl Set_add acc xs = acc @ dedup_first (filter (\<lambda>x. x \<notin> set acc) xs)"
proof (induction xs arbitrary: acc)
  case Nil
  show ?case by simp
next
  case (Cons x xs)
  show ?case
  proof (cases "x \<in> set acc")
    case True
    then show ?thesis by (simp add: Set_add_member Cons.IH)
  next
    case False
    have "filter (\<lambda>y. y \<notin> set (acc @ [x])) xs = filter (\<lambda>y. y \<noteq> x) (filter (\<lambda>y. y \<notin> set acc) xs)"
      by (induction xs) auto
    with False show ?thesis by (simp add: Set_add_fresh Cons.IH)
  qed
qed

lemma new_Set_dedup: "new_Set xs = dedup_first xs"
  by (simp add: new_Set_def foldl_Set_add_dedup)

lemma set_foldl_Set_add: "set (foldl Set_add acc xs) = set acc \<union> set xs"
proof (induction xs arbitrary: acc)
  case Nil
  show ?case by simp
next
  case (Cons x xs)
  show ?case
    by (cases "x \<in> set acc") (auto simp: Set_add_member Set_add_fresh Cons.IH)
qed

lemma distinct_foldl_Set_add: "distinct acc \<Longrightarrow> distinct (foldl Set_add acc xs)"
proof (induction xs arbitrary: acc)
  case Nil
  then show ?case by simp
next
  case (Cons x xs)
  show ?case
  proof (cases "x \<in> set acc")
    case True
    with Cons show ?thesis by (simp add: Set_add_member)
  next
    case False
    with Cons.prems have "distinct (acc @ [x])" by simp
    then have "distinct (foldl Set_add (acc @ [x]) xs)" by (rule Cons.IH)
    with False show ?thesis by (simp add: Set_add_fresh)
  qed
qed

lemma set_new_Set: "set (new_Set xs) = set xs"
  by (simp add: new_Set_def set_foldl_Set_add)

lemma distinct_new_Set: "distinct (new_Set xs)"
  by (simp add: new_Set_def distinct_foldl_Set_add)

lemma dedup_first_distinct: "distinct xs \<Longrightarrow> dedup_first xs = xs"
proof (induction xs)
  case Nil
  show ?case by simp
next
  case (Cons a xs)
  then have "filter (\<lambda>y. y \<noteq> a) xs = xs"
    by (intro filter_True) auto
  with Cons show ?case by simp
qed

lemma new_Set_distinct: "distinct xs \<Longrightarrow> new_Set xs = xs"
  by (simp add: new_Set_dedup dedup_first_distinct)

lemma new_Set_append:
  "new_Set (xs @ ys) = new_Set xs @ new_Set (filter (\<lambda>y. y \<notin> set xs) ys)"
proof -
  have "new_Set (xs @ ys) = foldl Set_add (new_Set xs) ys"
    by (simp add: new_Set_def)
  also have "\<dots> = new_Set xs @ dedup_first (filter (\<lambda>y. y \<notin> set (new_Set xs)) ys)"
    by (rule foldl_Set_add_dedup)
  also have "\<dots> = new_Set xs @ dedup_first (filter (\<lambda>y. y \<notin> set xs) ys)"
    by (simp only: set_new_Set)
  also have "\<dots> = new_Set xs @ new_Set (filter (\<lambda>y. y \<notin> set xs) ys)"
    by (simp only: new_Set_dedup)
  finally show ?thesis .
qed

lemma subseq_new_Set: "subseq (new_Set xs) xs"
proof -
  have "subseq (dedup_first ys) ys" for ys :: "'a list"
  proof (induction ys rule: dedup_first.induct)
    case 1
    show ?case by simp
  next
    case (2 x xs)
    have "subseq (dedup_first (filter (\<lambda>y. y \<noteq> x) xs)) (filter (\<lambda>y. y \<noteq> x) xs)"
      by (rule 2)
    also have "subseq (filter (\<lambda>y. y \<noteq> x) xs) xs" by simp
    finally show ?case by simp
  qed
  then show ?thesis by (simp add: new_Set_dedup)
qed

lemma subseq_take_self: "subseq (take n xs) xs"
  by (rule prefix_imp_subseq) (rule take_is_prefix)

section \<open>The subset shown by the Carousel\<close>

lemma filter_neq_removeAll: "filter (\<lambda>c. c \<noteq> x) xs = removeAll x xs"
  by (induction xs) auto

lemma distinct_fallbackCities: "distinct fallbackCities"
  by (simp add: fallbackCities_def)

lemma filter_fresh_fallback:
  "filter (\<lambda>y. y \<notin> set (filter (\<lambda>c. c \<noteq> sel) cs)) (filter (\<lambda>c. c \<noteq> sel) ys)
     = filter (\<lambda>c. c \<noteq> sel \<and> c \<notin> set cs) ys"
  by (induction ys) auto

text \<open>
  The fetched identifiers come first, de-duplicated; of the fallback list only the entries
  that are not fetched follow.
\<close>

lemma finalCities_split:
  "finalCities cs sel =
     take 8 (new_Set (filter (\<lambda>c. c \<noteq> sel) cs) @
             filter (\<lambda>c. c \<noteq> sel \<and> c \<notin> set cs) fallbackCities)"
proof -
  let ?fresh = "filter (\<lambda>c. c \<noteq> sel \<and> c \<notin> set cs) fallbackCities"
  have "distinct ?fresh"
    using distinct_fallbackCities by (rule distinct_filter)
  then have fresh: "new_Set ?fresh = ?fresh"
    by (rule new_Set_distinct)
  have "new_Set (filter (\<lambda>c. c \<noteq> sel) (cs @ fallbackCities)) =
        new_Set (filter (\<lambda>c. c \<noteq> sel) cs @ filter (\<lambda>c. c \<noteq> sel) fallbackCities)"
    by simp
  also have "\<dots> = new_Set (filter (\<lambda>c. c \<noteq> sel) cs) @ new_Set ?fresh"
    by (simp only: new_Set_append filter_fresh_fallback)
  also have "\<dots> = new_Set (filter (\<lambda>c. c \<noteq> sel) cs) @ ?fresh"
    by (simp only: fresh)
  finally show ?thesis
    by (simp only: finalCities_def Let_def)
qed

lemma fetched_before_fallback:
  assumes d: "d = take n (A @ B)"
    and A: "set A \<subseteq> S" and B: "set B \<inter> S = {}"
    and j: "j < length d" and ij: "i < j" and dj: "d ! j \<in> S"
  shows "d ! i \<in> S"
proof -
  from j d have jn: "j < n" and jl: "j < length (A @ B)" by simp_all
  have nth: "d ! k = (A @ B) ! k" if "k < n" for k
    unfolding d using that by (rule nth_take)
  have "j < length A"
  proof (rule ccontr)
    assume "\<not> j < length A"
    then have "(A @ B) ! j = B ! (j - length A)" by (simp add: nth_append)
    moreover have "j - length A < length B" using jl \<open>\<not> j < length A\<close> by simp
    ultimately have "(A @ B) ! j \<in> set B" by simp
    moreover have "d ! j = (A @ B) ! j" using jn by (rule nth)
    ultimately show False using dj B by auto
  qed
  with ij have "i < length A" by simp
  then have "(A @ B) ! i \<in> set A" by (simp add: nth_append)
  moreover have "d ! i = (A @ B) ! i" using jn ij by (intro nth) simp
  ultimately show ?thesis using A by auto
qed

text \<open>
  Claim C1. Whatever the city list and the selected city, once the effect of the Carousel
  has run the displayed subset is the one the specification describes: the city list
  followed by the fallback list \<open>leeds1, leeds2, london1, london2\<close>, without the entries
  equal to the selection, de-duplicated keeping first occurrences, cut to the first 8.
\<close>

theorem Carousel_displays_spec_subset:
  "fallbackCities = [JStr ''leeds1'', JStr ''leeds2'', JStr ''london1'', JStr ''london2''] \<and>
   displayedCities (Carousel_effect cs sel st) = carousel_spec cs sel"
  by (simp add: Carousel_effect_def finalCities_def carousel_spec_def Let_def
      new_Set_dedup filter_neq_removeAll fallbackCities_def del: removeAll_append)

text \<open>
  Claim C2. Whatever the city list and the selected city, the displayed subset has at most
  8 entries, has no duplicates, and does not contain the selected identifier.
\<close>

theorem Carousel_subset_bounded_distinct_unselected:
  "length (displayedCities (Carousel_effect cs sel st)) \<le> 8 \<and>
   distinct (displayedCities (Carousel_effect cs sel st)) \<and>
   sel \<notin> set (displayedCities (Carousel_effect cs sel st))"
proof -
  let ?ys = "new_Set (filter (\<lambda>c. c \<noteq> sel) (cs @ fallbackCities))"
  have d: "displayedCities (Carousel_effect cs sel st) = take 8 ?ys"
    by (simp add: Carousel_effect_def finalCities_def Let_def)
  have "length (take 8 ?ys) \<le> 8" by simp
  moreover have "distinct (take 8 ?ys)"
    by (rule distinct_take) (rule distinct_new_Set)
  moreover have "sel \<notin> set (take 8 ?ys)"
  proof
    assume "sel \<in> set (take 8 ?ys)"
    then have "sel \<in> set ?ys" by (rule in_set_takeD)
    then show False by (simp add: set_new_Set)
  qed
  ultimately show ?thesis unfolding d by blast
qed

text \<open>
  Claim C8. For the city list \<open>leeds1, london3\<close> with \<open>leeds1\<close> selected, the displayed
  subset is \<open>london3, leeds2, london1, london2\<close>: it leaves out \<open>leeds1\<close>, contains
  \<open>london3\<close> once, and its other entries are those of the fallback list.
\<close>

theorem Carousel_example_leeds1_selected:
  "displayedCities (Carousel_effect [JStr ''leeds1'', JStr ''london3''] (JStr ''leeds1'') st)
     = [JStr ''london3'', JStr ''leeds2'', JStr ''london1'', JStr ''london2''] \<and>
   JStr ''leeds1'' \<notin> set (displayedCities (Carousel_effect [JStr ''leeds1'', JStr ''london3''] (JStr ''leeds1'') st)) \<and>
   count_list (displayedCities (Carousel_effect [JStr ''leeds1'', JStr ''london3''] (JStr ''leeds1'') st)) (JStr ''london3'') = 1 \<and>
   set (tl (displayedCities (Carousel_effect [JStr ''leeds1'', JStr ''london3''] (JStr ''leeds1'') st)))
     \<subseteq> set fallbackCities"
  by (simp add: Carousel_effect_def finalCities_def Let_def new_Set_def Set_add_def
      fallbackCities_def)

text \<open>
  Claim C10. Whatever the city list and the selected city, the displayed subset is a
  subsequence (the order kept) of the city list followed by the fallback list. It is the
  first 8 entries of: the fetched identifiers other than the selection, de-duplicated, in
  their fetched order; then the fallback identifiers that are neither selected nor fetched.
  So an identifier that is both fetched and in the fallback list stands among the fetched
  ones, and no fetched identifier stands after an identifier that is not fetched.
\<close>

theorem Carousel_subset_keeps_order:
  "subseq (displayedCities (Carousel_effect cs sel st)) (cs @ fallbackCities) \<and>
   displayedCities (Carousel_effect cs sel st) =
     take 8 (new_Set (filter (\<lambda>c. c \<noteq> sel) cs) @
             filter (\<lambda>c. c \<noteq> sel \<and> c \<notin> set cs) fallbackCities) \<and>
   (\<forall>i j. i < j \<and> j < length (displayedCities (Carousel_effect cs sel st)) \<and>
       displayedCities (Carousel_effect cs sel st) ! j \<in> set cs
       \<longrightarrow> displayedCities (Carousel_effect cs sel st) ! i \<in> set cs)"
proof (intro conjI allI impI)
  have "subseq (take 8 (new_Set (filter (\<lambda>c. c \<noteq> sel) (cs @ fallbackCities))))
          (new_Set (filter (\<lambda>c. c \<noteq> sel) (cs @ fallbackCities)))"
    by (rule subseq_take_self)
  also have "subseq \<dots> (filter (\<lambda>c. c \<noteq> sel) (cs @ fallbackCities))"
    by (rule subseq_new_Set)
  also have "subseq \<dots> (cs @ fallbackCities)"
    by (rule subseq_filter_left)
  finally show "subseq (displayedCities (Carousel_effect cs sel st)) (cs @ fallbackCities)"
    by (simp add: Carousel_effect_def finalCities_def Let_def)
next
  show "displayedCities (Carousel_effect cs sel st) =
     take 8 (new_Set (filter (\<lambda>c. c \<noteq> sel) cs) @
             filter (\<lambda>c. c \<noteq> sel \<and> c \<notin> set cs) fallbackCities)"
    by (simp add: Carousel_effect_def finalCities_split)
next
  fix i j
  let ?d = "displayedCities (Carousel_effect cs sel st)"
  assume h: "i < j \<and> j < length ?d \<and> ?d ! j \<in> set cs"
  have d: "?d = take 8 (new_Set (filter (\<lambda>c. c \<noteq> sel) cs) @
             filter (\<lambda>c. c \<noteq> sel \<and> c \<notin> set cs) fallbackCities)"
    by (simp add: Carousel_effect_def finalCities_split)
  have A: "set (new_Set (filter (\<lambda>c. c \<noteq> sel) cs)) \<subseteq> set cs"
    by (auto simp: set_new_Set)
  have B: "set (filter (\<lambda>c. c \<noteq> sel \<and> c \<notin> set cs) fallbackCities) \<inter> set cs = {}"
    by auto
  from h show "?d ! i \<in> set cs"
    using fetched_before_fallback [OF d A B, of j i] by blast
qed

text \<open>
  The order statement at the list \<open>london3, leeds2\<close> with \<open>leeds1\<close> selected: the entry
  at index 1 is fetched, and so is the entry at index 0 before it.
\<close>

theorem Carousel_subset_keeps_order_witness:
  "(0::nat) < 1 \<and>
   1 < length (displayedCities (Carousel_effect [JStr ''london3'', JStr ''leeds2''] (JStr ''leeds1'') Carousel_init)) \<and>
   displayedCities (Carousel_effect [JStr ''london3'', JStr ''leeds2''] (JStr ''leeds1'') Carousel_init) ! 1
     \<in> set [JStr ''london3'', JStr ''leeds2''] \<and>
   displayedCities (Carousel_effect [JStr ''london3'', JStr ''leeds2''] (JStr ''leeds1'') Carousel_init) ! 0
     \<in> set [JStr ''london3'', JStr ''leeds2'']"
proof -
  have d: "displayedCities (Carousel_effect [JStr ''london3'', JStr ''leeds2''] (JStr ''leeds1'') Carousel_init)
      = [JStr ''london3'', JStr ''leeds2'', JStr ''london1'', JStr ''london2'']"
    by (simp add: Carousel_effect_def finalCities_def Let_def new_Set_def Set_add_def
        fallbackCities_def)
  have h: "(0::nat) < 1 \<and>
   1 < length (displayedCities (Carousel_effect [JStr ''london3'', JStr ''leeds2''] (JStr ''leeds1'') Carousel_init)) \<and>
   displayedCities (Carousel_effect [JStr ''london3'', JStr ''leeds2''] (JStr ''leeds1'') Carousel_init) ! 1
     \<in> set [JStr ''london3'', JStr ''leeds2'']"
    by (simp add: d)
  from Carousel_subset_keeps_order [of "[JStr ''london3'', JStr ''leeds2'']" "JStr ''leeds1''" Carousel_init] h
  show ?thesis by blast
qed

section \<open>Renders and frames\<close>

text \<open>
  The equations of \<open>step\<close> are applied where they are named, not by default.
\<close>

declare step.simps [simp del]

text \<open>The frames that are exiting do not enter the render.\<close>

lemma Home_exiting [simp]: "Home (s\<lparr>exiting := x\<rparr>) = Home s"
  by (simp add: Home_def cong: sum.case_cong if_cong json.case_cong)

lemma frame_of_exiting [simp]: "frame_of (s\<lparr>exiting := x\<rparr>) = frame_of s"
  by (simp add: frame_of_def)

lemma presence_of_exiting [simp]: "presence_of (s\<lparr>exiting := x\<rparr>) = presence_of s"
  by (simp add: presence_of_def)

lemma commit_fields:
  "cities (commit s s') = cities s'"
  "selectedCity (commit s s') = selectedCity s'"
  "isMapVisible (commit s s') = isMapVisible s'"
  "isClosing (commit s s') = isClosing s'"
  "location (commit s s') = location s'"
  "console (commit s s') = console s'"
  "requests (commit s s') = requests s'"
  "awaiting (commit s s') = awaiting s'"
  by (simp_all add: commit_def)

lemma Home_commit: "Home (commit s s') = Home s'"
  by (simp add: commit_def)

lemma frame_of_commit: "frame_of (commit s s') = frame_of s'"
  by (simp add: commit_def)

lemma presence_of_commit: "presence_of (commit s s') = presence_of s'"
  by (simp add: commit_def)

lemma renders_commit: "renders (commit s s') = renders s'"
  by (simp add: renders_def Home_commit)

lemma frame_ofD:
  assumes "frame_of s = Some k"
  shows "js_truthy (selectedCity s)" and "isMapVisible s" and "js_toString (selectedCity s) = Some k"
    and "\<exists>g. ThumbnailGrid (cities s) = Inr g"
  using assms
  by (auto simp: frame_of_def Home_def overlay_of_def split: if_splits sum.splits json.splits option.splits)

lemma frame_of_hidden: "\<not> isMapVisible s \<Longrightarrow> frame_of s = None"
  by (auto simp: frame_of_def Home_def split: sum.splits)

lemma frame_of_falsy: "\<not> js_truthy (selectedCity s) \<Longrightarrow> frame_of s = None"
  by (auto simp: frame_of_def Home_def split: sum.splits)

lemma presence_of_falsy: "\<not> js_truthy (selectedCity s) \<Longrightarrow> \<not> presence_of s"
  by (auto simp: presence_of_def Home_def split: sum.splits)

lemma presence_of_hidden:
  assumes "ThumbnailGrid (cities s) = Inr g" "js_truthy (selectedCity s)" "\<not> isMapVisible s"
  shows "presence_of s"
  using assms by (simp add: presence_of_def Home_def)

lemma frame_of_key:
  "frame_of s = Some k \<Longrightarrow> js_toString (selectedCity s) = Some k"
  by (rule frame_ofD)

lemma renders_view:
  assumes "renders s"
  shows "presence_of s = js_truthy (selectedCity s)"
    and "frame_of s = (if js_truthy (selectedCity s) \<and> isMapVisible s then js_toString (selectedCity s) else None)"
  using assms
  by (auto simp: renders_def shown_def presence_of_def frame_of_def Home_def overlay_of_def
      split: if_splits sum.splits json.splits option.splits)

lemma presence_renders: "presence_of s \<Longrightarrow> renders s"
  by (auto simp: presence_of_def renders_def shown_def split: sum.splits)

section \<open>Selection in Home\<close>

lemma handleSelect_same: "handleSelect c c s = s\<lparr>isClosing := True, isMapVisible := False\<rparr>"
  by (simp add: handleSelect_def)

lemma handleSelect_other:
  "seen \<noteq> JStr c \<Longrightarrow>
     handleSelect seen (JStr c) s =
       s\<lparr>selectedCity := JStr c, isMapVisible := True, isClosing := False,
         location := NavigatedTo (''/map/'' @ c)\<rparr>"
  by (simp add: handleSelect_def)

lemma exit_end_single:
  "exiting t = [(k, seen, b)] \<Longrightarrow>
     step t (ExitEnd k) = commit (t\<lparr>exiting := []\<rparr>) (onExitComplete b (t\<lparr>exiting := []\<rparr>))"
  by (simp add: step.simps)

text \<open>
  Selecting the selected identifier: the overlay goes; when a frame was shown, its exit
  begins and its end clears the selection.
\<close>

lemma close_state:
  assumes "selectedCity s = JStr c"
  shows "isClosing (step s (Select (JStr c)))"
    and "\<not> isMapVisible (step s (Select (JStr c)))"
    and "selectedCity (step s (Select (JStr c))) = JStr c"
    and "location (step s (Select (JStr c))) = location s"
    and "frame_of (step s (Select (JStr c))) = None"
  using assms
  by (simp_all add: step.simps handleSelect_same commit_fields frame_of_commit frame_of_hidden)

lemma close_starts_exit:
  assumes sel: "selectedCity s = JStr c" and fr: "frame_of s = Some c"
  shows "exiting (step s (Select (JStr c))) = exiting s @ [(c, JStr c, True)]"
proof -
  let ?s' = "s\<lparr>isClosing := True, isMapVisible := False\<rparr>"
  from fr obtain g where g: "ThumbnailGrid (cities s) = Inr g" using frame_ofD(4) by blast
  from fr have tr: "js_truthy (selectedCity s)" by (rule frame_ofD)
  have pres: "presence_of ?s'"
    using g tr by (intro presence_of_hidden [where g = g]) simp_all
  have none: "frame_of ?s' = None" by (simp add: frame_of_hidden)
  show ?thesis
    using sel fr pres none
    by (simp add: step.simps handleSelect_same commit_def)
qed

lemma close_exit_end:
  assumes sel: "selectedCity s = JStr c" and fr: "frame_of s = Some c" and ex: "exiting s = []"
  shows "selectedCity (step (step s (Select (JStr c))) (ExitEnd c)) = JNull"
    and "location (step (step s (Select (JStr c))) (ExitEnd c)) = NavigatedTo ''/''"
    and "\<not> presence_of (step (step s (Select (JStr c))) (ExitEnd c))"
    and "exiting (step (step s (Select (JStr c))) (ExitEnd c)) = []"
proof -
  let ?s1 = "step s (Select (JStr c))"
  have e1: "exiting ?s1 = [(c, JStr c, True)]"
    using close_starts_exit [OF sel fr] ex by simp
  have st: "step ?s1 (ExitEnd c) =
      commit (?s1\<lparr>exiting := []\<rparr>) (onExitComplete True (?s1\<lparr>exiting := []\<rparr>))"
    by (rule exit_end_single [OF e1])
  have np: "\<not> presence_of (onExitComplete True (?s1\<lparr>exiting := []\<rparr>))"
    by (rule presence_of_falsy) (simp add: onExitComplete_def)
  show "selectedCity (step ?s1 (ExitEnd c)) = JNull"
    by (simp only: st commit_fields) (simp add: onExitComplete_def)
  show "location (step ?s1 (ExitEnd c)) = NavigatedTo ''/''"
    by (simp only: st commit_fields) (simp add: onExitComplete_def)
  show "\<not> presence_of (step ?s1 (ExitEnd c))"
    unfolding st presence_of_commit by (rule np)
  show "exiting (step ?s1 (ExitEnd c)) = []"
    using np by (simp only: st) (simp add: commit_def)
qed

text \<open>
  Selecting another identifier: it becomes the selection, the location is navigated to,
  and the frame of the old one is not kept.
\<close>

lemma switch_state:
  assumes "selectedCity s \<noteq> JStr c"
  shows "selectedCity (step s (Select (JStr c))) = JStr c"
    and "isMapVisible (step s (Select (JStr c)))"
    and "\<not> isClosing (step s (Select (JStr c)))"
    and "location (step s (Select (JStr c))) = NavigatedTo (''/map/'' @ c)"
  using assms by (simp_all add: step.simps handleSelect_other commit_fields)

lemma switch_view:
  assumes other: "selectedCity s \<noteq> JStr c" and r: "renders (step s (Select (JStr c)))"
  shows "presence_of (step s (Select (JStr c))) = (c \<noteq> [])"
    and "frame_of (step s (Select (JStr c))) = (if c = [] then None else Some c)"
  using renders_view [OF r] switch_state [OF other] by simp_all

lemma switch_remounts:
  assumes "selectedCity s = JStr d" "d \<noteq> c"
  shows "\<not> frame_stays s (step s (Select (JStr c)))"
proof
  assume "frame_stays s (step s (Select (JStr c)))"
  then obtain k where k: "frame_of s = Some k" "frame_of (step s (Select (JStr c))) = Some k"
    by (auto simp: frame_stays_def split: option.splits)
  from k(1) have "js_toString (selectedCity s) = Some k" by (rule frame_of_key)
  with assms(1) have "k = d" by simp
  from k(2) have "js_toString (selectedCity (step s (Select (JStr c)))) = Some k"
    by (rule frame_of_key)
  moreover have "selectedCity (step s (Select (JStr c))) = JStr c"
    using assms by (intro switch_state) simp
  ultimately have "k = c" by simp
  with \<open>k = d\<close> assms(2) show False by simp
qed

lemma switch_starts_exit:
  assumes sel: "selectedCity s = JStr d" and ne: "d \<noteq> c" and fr: "frame_of s = Some d"
    and pres: "presence_of (step s (Select (JStr c)))"
  shows "exiting (step s (Select (JStr c))) =
           filter (\<lambda>(k, seen, closing). Some k \<noteq> frame_of (step s (Select (JStr c)))) (exiting s)
           @ [(d, JStr d, False)]"
proof -
  let ?s' = "handleSelect (selectedCity s) (JStr c) s"
  have other: "selectedCity s \<noteq> JStr c" using sel ne by simp
  have step: "step s (Select (JStr c)) = commit s ?s'" by (simp add: step.simps)
  have pres': "presence_of ?s'" using pres by (simp add: step.simps presence_of_commit)
  have fo: "frame_of (commit s ?s') = frame_of ?s'" by (rule frame_of_commit)
  have nk: "Some d \<noteq> frame_of ?s'"
  proof
    assume "Some d = frame_of ?s'"
    then have "js_toString (selectedCity ?s') = Some d" by (intro frame_of_key) simp
    then show False using other ne by (simp add: handleSelect_other)
  qed
  have ex: "exiting ?s' = exiting s" using other by (simp add: handleSelect_other)
  have cl: "isClosing ?s' = False" using other by (simp add: handleSelect_other)
  show ?thesis
    unfolding step fo using pres' nk fr sel ex cl
    by (simp add: commit_def)
qed

lemma switch_exit_end:
  assumes sel: "selectedCity s = JStr d" and ne: "d \<noteq> c" and fr: "frame_of s = Some d"
    and pres: "presence_of (step s (Select (JStr c)))" and ex: "exiting s = []"
  shows "step (step s (Select (JStr c))) (ExitEnd d) = (step s (Select (JStr c)))\<lparr>exiting := []\<rparr>"
proof -
  let ?s1 = "step s (Select (JStr c))"
  have e1: "exiting ?s1 = [(d, JStr d, False)]"
    using switch_starts_exit [OF sel ne fr pres] ex by simp
  have "step ?s1 (ExitEnd d) =
      commit (?s1\<lparr>exiting := []\<rparr>) (onExitComplete False (?s1\<lparr>exiting := []\<rparr>))"
    by (rule exit_end_single [OF e1])
  also have "\<dots> = commit (?s1\<lparr>exiting := []\<rparr>) (?s1\<lparr>exiting := []\<rparr>)"
    by (simp add: onExitComplete_def)
  also have "\<dots> = ?s1\<lparr>exiting := []\<rparr>"
    by (simp add: commit_def split: option.splits)
  finally show ?thesis .
qed

lemma switch_starts_exit_key:
  assumes sel: "selectedCity s = JStr d" and ne: "d \<noteq> c" and fr: "frame_of s = Some d"
    and pres: "presence_of (step s (Select (JStr c)))"
  shows "exiting (step s (Select (JStr c))) =
           filter (\<lambda>(k, seen, closing). k \<noteq> c) (exiting s) @ [(d, JStr d, False)]"
proof -
  have other: "selectedCity s \<noteq> JStr c" using sel ne by simp
  have r: "renders (step s (Select (JStr c)))" using pres by (rule presence_renders)
  have "c \<noteq> []" using switch_view(1) [OF other r] pres by simp
  then have "frame_of (step s (Select (JStr c))) = Some c"
    using switch_view(2) [OF other r] by simp
  then show ?thesis
    using switch_starts_exit [OF sel ne fr pres] by simp
qed

text \<open>The definitions that evaluate a scenario, and the overlay opened on \<open>leeds1\<close>.\<close>

lemmas concrete_defs =
  step.simps opened_on_def loaded_at_def cities_body_def run_def useEffect_mount_def Home_init_def
  fetch_settled_def then_json_def then_setCities_def data_cities_def res_ok_def
  handleSelect_def commit_def presence_of_def frame_of_def Home_def ThumbnailGrid_def
  thumbnail_of_def overlay_of_def js_get_def js_or_def cityNames_def cityDetails_def
  Object_prototype_functions_def Carousel_def Carousel_effect_def Carousel_init_def
  finalCities_def Let_def new_Set_def Set_add_def fallbackCities_def heatmap_url_def

lemma opened_leeds1:
  "opened_on ''/'' [''leeds1'', ''leeds2''] ''leeds1'' =
     \<lparr>cities = JArr 1 [JStr ''leeds1'', JStr ''leeds2''], selectedCity = JStr ''leeds1'',
      isMapVisible = True, isClosing = False, location = NavigatedTo ''/map/leeds1'',
      console = [], requests = [''http://localhost:8000/cities''], awaiting = False,
      exiting = []\<rparr>"
  by (simp add: concrete_defs)

lemma frame_opened_leeds1:
  "frame_of (opened_on ''/'' [''leeds1'', ''leeds2''] ''leeds1'') = Some ''leeds1''"
  by (simp add: opened_leeds1 step.simps) (simp add: concrete_defs)

lemma frame_switched_leeds2:
  "frame_of (step (opened_on ''/'' [''leeds1'', ''leeds2''] ''leeds1'') (Select (JStr ''leeds2'')))
     = Some ''leeds2''"
  by (simp add: opened_leeds1 step.simps) (simp add: concrete_defs)

lemma presence_switched_leeds2:
  "presence_of (step (opened_on ''/'' [''leeds1'', ''leeds2''] ''leeds1'') (Select (JStr ''leeds2'')))"
  by (simp add: opened_leeds1 step.simps) (simp add: concrete_defs)

text \<open>
  Claim C3, as amended. Invoking the selection handler with the currently selected
  identifier closes the overlay: the state is closing and not visible, the selection and
  the location stay, and no frame is rendered; when a frame was shown, its exit begins
  with an \<open>onExitComplete\<close> that closed over \<open>isClosing = true\<close>; and when that exit
  ends, no other frame exiting, the selection is \<open>null\<close>, the location is the one that
  \<open>navigate('/')\<close> gives, and the container of the overlay is gone. Invoking it with a
  different identifier makes that identifier the selection, visible and not closing, and
  calls \<open>navigate\<close> with the text \<open>/map/{city}\<close>; the path that results is that text
  when it is plain, and is left open otherwise. If the render does not throw, the
  container is there and the overlay frame has the key of the new identifier exactly when
  the identifier is not empty. The frame of another identifier is never kept: when it was
  shown it starts its exit, with an \<open>onExitComplete\<close> that closed over
  \<open>isClosing = false\<close>, and the end of that exit, no other frame exiting, changes nothing
  else.
\<close>

theorem handleSelect_toggles_or_replaces:
  "(selectedCity s = JStr c \<longrightarrow>
      isClosing (step s (Select (JStr c))) \<and>
      \<not> isMapVisible (step s (Select (JStr c))) \<and>
      selectedCity (step s (Select (JStr c))) = JStr c \<and>
      location (step s (Select (JStr c))) = location s \<and>
      frame_of (step s (Select (JStr c))) = None) \<and>
   (selectedCity s = JStr c \<and> frame_of s = Some c \<longrightarrow>
      exiting (step s (Select (JStr c))) = exiting s @ [(c, JStr c, True)]) \<and>
   (selectedCity s = JStr c \<and> frame_of s = Some c \<and> exiting s = [] \<longrightarrow>
      selectedCity (step (step s (Select (JStr c))) (ExitEnd c)) = JNull \<and>
      location (step (step s (Select (JStr c))) (ExitEnd c)) = NavigatedTo ''/'' \<and>
      \<not> presence_of (step (step s (Select (JStr c))) (ExitEnd c)) \<and>
      exiting (step (step s (Select (JStr c))) (ExitEnd c)) = []) \<and>
   (selectedCity s \<noteq> JStr c \<longrightarrow>
      selectedCity (step s (Select (JStr c))) = JStr c \<and>
      isMapVisible (step s (Select (JStr c))) \<and>
      \<not> isClosing (step s (Select (JStr c))) \<and>
      location (step s (Select (JStr c))) = NavigatedTo (''/map/'' @ c) \<and>
      location_path (location (step s (Select (JStr c)))) =
        (if url_plain (''/map/'' @ c) then Some (''/map/'' @ c) else None)) \<and>
   (selectedCity s \<noteq> JStr c \<and> renders (step s (Select (JStr c))) \<longrightarrow>
      presence_of (step s (Select (JStr c))) = (c \<noteq> []) \<and>
      frame_of (step s (Select (JStr c))) = (if c = [] then None else Some c)) \<and>
   (selectedCity s = JStr d \<and> d \<noteq> c \<longrightarrow>
      \<not> frame_stays s (step s (Select (JStr c)))) \<and>
   (selectedCity s = JStr d \<and> d \<noteq> c \<and> frame_of s = Some d \<and>
    presence_of (step s (Select (JStr c))) \<longrightarrow>
      exiting (step s (Select (JStr c))) =
        filter (\<lambda>(k, seen, closing). k \<noteq> c) (exiting s) @ [(d, JStr d, False)]) \<and>
   (selectedCity s = JStr d \<and> d \<noteq> c \<and> frame_of s = Some d \<and>
    presence_of (step s (Select (JStr c))) \<and> exiting s = [] \<longrightarrow>
      step (step s (Select (JStr c))) (ExitEnd d) = (step s (Select (JStr c)))\<lparr>exiting := []\<rparr>)"
proof (intro conjI impI)
  assume sel: "selectedCity s = JStr c"
  show "isClosing (step s (Select (JStr c)))" using sel by (rule close_state)
  show "\<not> isMapVisible (step s (Select (JStr c)))" using sel by (rule close_state)
  show "selectedCity (step s (Select (JStr c))) = JStr c" using sel by (rule close_state)
  show "location (step s (Select (JStr c))) = location s" using sel by (rule close_state)
  show "frame_of (step s (Select (JStr c))) = None" using sel by (rule close_state)
next
  assume "selectedCity s = JStr c \<and> frame_of s = Some c"
  then have sel: "selectedCity s = JStr c" and fr: "frame_of s = Some c" by simp_all
  show "exiting (step s (Select (JStr c))) = exiting s @ [(c, JStr c, True)]"
    using sel fr by (rule close_starts_exit)
next
  assume h: "selectedCity s = JStr c \<and> frame_of s = Some c \<and> exiting s = []"
  then have sel: "selectedCity s = JStr c" and fr: "frame_of s = Some c" and ex: "exiting s = []"
    by simp_all
  show "selectedCity (step (step s (Select (JStr c))) (ExitEnd c)) = JNull"
    using sel fr ex by (rule close_exit_end)
  show "location (step (step s (Select (JStr c))) (ExitEnd c)) = NavigatedTo ''/''"
    using sel fr ex by (rule close_exit_end)
  show "\<not> presence_of (step (step s (Select (JStr c))) (ExitEnd c))"
    using sel fr ex by (rule close_exit_end)
  show "exiting (step (step s (Select (JStr c))) (ExitEnd c)) = []"
    using sel fr ex by (rule close_exit_end)
next
  assume other: "selectedCity s \<noteq> JStr c"
  show "selectedCity (step s (Select (JStr c))) = JStr c" using other by (rule switch_state)
  show "isMapVisible (step s (Select (JStr c)))" using other by (rule switch_state)
  show "\<not> isClosing (step s (Select (JStr c)))" using other by (rule switch_state)
  show loc: "location (step s (Select (JStr c))) = NavigatedTo (''/map/'' @ c)"
    using other by (rule switch_state)
  show "location_path (location (step s (Select (JStr c)))) =
        (if url_plain (''/map/'' @ c) then Some (''/map/'' @ c) else None)"
    unfolding loc by (simp only: location_path_def location.case)
next
  assume h: "selectedCity s \<noteq> JStr c \<and> renders (step s (Select (JStr c)))"
  then have other: "selectedCity s \<noteq> JStr c" and r: "renders (step s (Select (JStr c)))"
    by simp_all
  show "presence_of (step s (Select (JStr c))) = (c \<noteq> [])" using other r by (rule switch_view)
  show "frame_of (step s (Select (JStr c))) = (if c = [] then None else Some c)"
    using other r by (rule switch_view)
next
  assume "selectedCity s = JStr d \<and> d \<noteq> c"
  then have sel: "selectedCity s = JStr d" and ne: "d \<noteq> c" by simp_all
  show "\<not> frame_stays s (step s (Select (JStr c)))"
    using sel ne by (rule switch_remounts)
next
  assume "selectedCity s = JStr d \<and> d \<noteq> c \<and> frame_of s = Some d \<and>
    presence_of (step s (Select (JStr c)))"
  then have sel: "selectedCity s = JStr d" and ne: "d \<noteq> c" and fr: "frame_of s = Some d"
    and pres: "presence_of (step s (Select (JStr c)))" by simp_all
  show "exiting (step s (Select (JStr c))) =
        filter (\<lambda>(k, seen, closing). k \<noteq> c) (exiting s) @ [(d, JStr d, False)]"
    using sel ne fr pres by (rule switch_starts_exit_key)
next
  assume "selectedCity s = JStr d \<and> d \<noteq> c \<and> frame_of s = Some d \<and>
    presence_of (step s (Select (JStr c))) \<and> exiting s = []"
  then have sel: "selectedCity s = JStr d" and ne: "d \<noteq> c" and fr: "frame_of s = Some d"
    and pres: "presence_of (step s (Select (JStr c)))" and ex: "exiting s = []" by simp_all
  show "step (step s (Select (JStr c))) (ExitEnd d) = (step s (Select (JStr c)))\<lparr>exiting := []\<rparr>"
    using sel ne fr pres ex by (rule switch_exit_end)
qed

text \<open>
  Both cases at the overlay opened on \<open>leeds1\<close>, with \<open>leeds1\<close> and \<open>leeds2\<close> in the
  list: selecting \<open>leeds1\<close> again and letting the exit end clears the selection and goes
  to the root; selecting \<open>leeds2\<close> shows its frame at the path \<open>/map/leeds2\<close>, and the
  end of the exit of the frame of \<open>leeds1\<close> leaves \<open>leeds2\<close> selected.
\<close>

theorem handleSelect_toggles_or_replaces_witness:
  "selectedCity (opened_on ''/'' [''leeds1'', ''leeds2''] ''leeds1'') = JStr ''leeds1'' \<and>
   frame_of (opened_on ''/'' [''leeds1'', ''leeds2''] ''leeds1'') = Some ''leeds1'' \<and>
   exiting (opened_on ''/'' [''leeds1'', ''leeds2''] ''leeds1'') = [] \<and>
   selectedCity (step (step (opened_on ''/'' [''leeds1'', ''leeds2''] ''leeds1'')
                   (Select (JStr ''leeds1''))) (ExitEnd ''leeds1'')) = JNull \<and>
   location (step (step (opened_on ''/'' [''leeds1'', ''leeds2''] ''leeds1'')
                   (Select (JStr ''leeds1''))) (ExitEnd ''leeds1'')) = NavigatedTo ''/'' \<and>
   ''leeds1'' \<noteq> ''leeds2'' \<and>
   presence_of (step (opened_on ''/'' [''leeds1'', ''leeds2''] ''leeds1'') (Select (JStr ''leeds2''))) \<and>
   renders (step (opened_on ''/'' [''leeds1'', ''leeds2''] ''leeds1'') (Select (JStr ''leeds2''))) \<and>
   frame_of (step (opened_on ''/'' [''leeds1'', ''leeds2''] ''leeds1'') (Select (JStr ''leeds2'')))
     = Some ''leeds2'' \<and>
   location_path (location (step (opened_on ''/'' [''leeds1'', ''leeds2''] ''leeds1'')
                   (Select (JStr ''leeds2'')))) = Some ''/map/leeds2'' \<and>
   exiting (step (opened_on ''/'' [''leeds1'', ''leeds2''] ''leeds1'') (Select (JStr ''leeds2'')))
     = [(''leeds1'', JStr ''leeds1'', False)] \<and>
   selectedCity (step (step (opened_on ''/'' [''leeds1'', ''leeds2''] ''leeds1'')
                   (Select (JStr ''leeds2''))) (ExitEnd ''leeds1'')) = JStr ''leeds2''"
proof -
  let ?o = "opened_on ''/'' [''leeds1'', ''leeds2''] ''leeds1''"
  have sel: "selectedCity ?o = JStr ''leeds1''" by (simp add: opened_leeds1)
  have fr: "frame_of ?o = Some ''leeds1''" by (rule frame_opened_leeds1)
  have ex: "exiting ?o = []" by (simp add: opened_leeds1)
  have ne: "''leeds1'' \<noteq> ''leeds2''" by simp
  have pres: "presence_of (step ?o (Select (JStr ''leeds2'')))" by (rule presence_switched_leeds2)
  have r: "renders (step ?o (Select (JStr ''leeds2'')))" using pres by (rule presence_renders)
  have other: "selectedCity ?o \<noteq> JStr ''leeds2''" by (simp add: opened_leeds1)
  have plain: "url_plain (''/map/'' @ ''leeds2'')" by (simp add: url_plain_def)
  note a = handleSelect_toggles_or_replaces [of ?o "''leeds1''" "''leeds1''"]
  note b = handleSelect_toggles_or_replaces [of ?o "''leeds2''" "''leeds1''"]
  from a sel fr ex have close:
    "selectedCity (step (step ?o (Select (JStr ''leeds1''))) (ExitEnd ''leeds1'')) = JNull"
    "location (step (step ?o (Select (JStr ''leeds1''))) (ExitEnd ''leeds1'')) = NavigatedTo ''/''"
    by blast+
  from b other r have "frame_of (step ?o (Select (JStr ''leeds2''))) =
      (if ''leeds2'' = [] then None else Some ''leeds2'')"
    by blast
  then have view: "frame_of (step ?o (Select (JStr ''leeds2''))) = Some ''leeds2''"
    by simp
  from b other have "location_path (location (step ?o (Select (JStr ''leeds2'')))) =
      (if url_plain (''/map/'' @ ''leeds2'') then Some (''/map/'' @ ''leeds2'') else None)"
    by blast
  with plain have path:
    "location_path (location (step ?o (Select (JStr ''leeds2'')))) = Some ''/map/leeds2''"
    by simp
  from b sel ne fr pres have "exiting (step ?o (Select (JStr ''leeds2''))) =
      filter (\<lambda>(k, seen, closing). k \<noteq> ''leeds2'') (exiting ?o) @ [(''leeds1'', JStr ''leeds1'', False)]"
    by blast
  then have exits:
    "exiting (step ?o (Select (JStr ''leeds2''))) = [(''leeds1'', JStr ''leeds1'', False)]"
    by (simp add: ex)
  from b sel ne fr pres ex have "step (step ?o (Select (JStr ''leeds2''))) (ExitEnd ''leeds1'')
      = (step ?o (Select (JStr ''leeds2'')))\<lparr>exiting := []\<rparr>"
    by blast
  moreover from b other have "selectedCity (step ?o (Select (JStr ''leeds2''))) = JStr ''leeds2''"
    by blast
  ultimately have kept:
    "selectedCity (step (step ?o (Select (JStr ''leeds2''))) (ExitEnd ''leeds1'')) = JStr ''leeds2''"
    by simp
  from sel fr ex close ne pres r view path exits kept show ?thesis by blast
qed

text \<open>
  With the overlay open on \<open>leeds1\<close>: selecting \<open>leeds2\<close> selects it and navigates to
  its route, and the frame of the overlay is not the one that was mounted before, it is
  unmounted and mounted anew under the key \<open>leeds2\<close>; selecting the empty identifier
  selects it, and then no overlay is shown and the container is unmounted as well (the
  empty string is falsy in \<open>selectedCity && ...\<close>).
\<close>

theorem replacing_overlay_remounts_frame:
  "frame_of (opened_on ''/'' [''leeds1'', ''leeds2''] ''leeds1'') = Some ''leeds1'' \<and>
   selectedCity (step (opened_on ''/'' [''leeds1'', ''leeds2''] ''leeds1'') (Select (JStr ''leeds2'')))
     = JStr ''leeds2'' \<and>
   location (step (opened_on ''/'' [''leeds1'', ''leeds2''] ''leeds1'') (Select (JStr ''leeds2'')))
     = NavigatedTo ''/map/leeds2'' \<and>
   frame_of (step (opened_on ''/'' [''leeds1'', ''leeds2''] ''leeds1'') (Select (JStr ''leeds2'')))
     = Some ''leeds2'' \<and>
   \<not> frame_stays (opened_on ''/'' [''leeds1'', ''leeds2''] ''leeds1'')
        (step (opened_on ''/'' [''leeds1'', ''leeds2''] ''leeds1'') (Select (JStr ''leeds2''))) \<and>
   selectedCity (step (opened_on ''/'' [''leeds1'', ''leeds2''] ''leeds1'') (Select (JStr [])))
     = JStr [] \<and>
   frame_of (step (opened_on ''/'' [''leeds1'', ''leeds2''] ''leeds1'') (Select (JStr []))) = None \<and>
   \<not> presence_of (step (opened_on ''/'' [''leeds1'', ''leeds2''] ''leeds1'') (Select (JStr [])))"
proof -
  let ?o = "opened_on ''/'' [''leeds1'', ''leeds2''] ''leeds1''"
  have a: "frame_of ?o = Some ''leeds1''" by (rule frame_opened_leeds1)
  have b: "frame_of (step ?o (Select (JStr ''leeds2''))) = Some ''leeds2''"
    by (rule frame_switched_leeds2)
  have c: "\<not> frame_stays ?o (step ?o (Select (JStr ''leeds2'')))"
    by (simp add: frame_stays_def a b)
  have d: "selectedCity (step ?o (Select (JStr ''leeds2''))) = JStr ''leeds2''"
    "location (step ?o (Select (JStr ''leeds2''))) = NavigatedTo ''/map/leeds2''"
    by (simp_all add: opened_leeds1 step.simps handleSelect_def commit_fields)
  have e: "selectedCity (step ?o (Select (JStr []))) = JStr []"
    by (simp add: opened_leeds1 step.simps handleSelect_def commit_fields)
  have f: "frame_of (step ?o (Select (JStr []))) = None"
    by (rule frame_of_falsy) (simp add: e)
  have g: "\<not> presence_of (step ?o (Select (JStr [])))"
    by (rule presence_of_falsy) (simp add: e)
  from a b c d e f g show ?thesis by blast
qed

text \<open>
  An exit that a close began keeps its \<open>onExitComplete\<close>: when another identifier is
  selected before it ends, its end still clears the selection and goes to the root, and
  the overlay just opened is gone.
\<close>

lemma close_then_select_loses_selection:
  "run (opened_on ''/'' [''leeds1'', ''leeds2''] ''leeds1'')
       [Select (JStr ''leeds1''), Select (JStr ''leeds2''), ExitEnd ''leeds1'']
     = \<lparr>cities = JArr 1 [JStr ''leeds1'', JStr ''leeds2''], selectedCity = JNull,
        isMapVisible = True, isClosing = False, location = NavigatedTo ''/'',
        console = [], requests = [''http://localhost:8000/cities''], awaiting = False,
        exiting = []\<rparr>"
  by (simp add: opened_leeds1 run_def) (simp add: concrete_defs onExitComplete_def)

section \<open>Selection and the location\<close>

lemma location_written_fields:
  "selectedCity s' = selectedCity s \<Longrightarrow> location s' = location s \<Longrightarrow>
     location_written s' = location_written s"
  by (simp add: location_written_def cong: json.case_cong)

lemma location_written_commit: "location_written (commit s s') = location_written s'"
  by (rule location_written_fields) (simp_all add: commit_fields)

lemma handleSelect_written:
  "location_written s \<Longrightarrow> location_written (handleSelect seen (JStr c) s)"
proof (cases "seen = JStr c")
  case True
  assume "location_written s"
  moreover have "location_written (s\<lparr>isClosing := True, isMapVisible := False\<rparr>) = location_written s"
    by (rule location_written_fields) simp_all
  ultimately show ?thesis using True by (simp add: handleSelect_same)
next
  case False
  then show ?thesis by (simp add: handleSelect_other location_written_def)
qed

lemma onExitComplete_written:
  "location_written s \<Longrightarrow> location_written (onExitComplete b s)"
  by (simp add: onExitComplete_def location_written_def)

lemma fetch_settled_keeps:
  "fetch_settled r s = Inr s' \<Longrightarrow> selectedCity s' = selectedCity s \<and> location s' = location s"
  by (auto simp: fetch_settled_def then_json_def then_setCities_def catch_log_def Let_def
      split: response.splits body.splits if_splits sum.splits option.splits)

lemma step_location_written:
  assumes ev: "identifier_event e" and inv: "location_written s"
  shows "location_written (step s e)"
proof (cases e)
  case (Select x)
  with ev obtain c where "x = JStr c" by (cases x) simp_all
  with Select inv show ?thesis
    by (simp add: step.simps location_written_commit handleSelect_written)
next
  case (SelectInExiting k x)
  with ev obtain c where "x = JStr c" by (cases x) simp_all
  with SelectInExiting inv show ?thesis
    by (auto simp: step.simps location_written_commit handleSelect_written split: option.splits)
next
  case (ExitEnd k)
  have "location_written (s\<lparr>exiting := x\<rparr>) = location_written s" for x
    by (rule location_written_fields) simp_all
  with inv have a: "location_written (s\<lparr>exiting := x\<rparr>)" for x
    by simp
  show ?thesis
    using a inv by (auto simp: ExitEnd step.simps location_written_commit onExitComplete_written
        split: option.splits)
next
  case (Settled r)
  show ?thesis
  proof (cases "awaiting s")
    case False
    with inv show ?thesis by (simp add: Settled step.simps)
  next
    case True
    show ?thesis
    proof (cases "fetch_settled r s")
      case (Inl e')
      have "location_written (s\<lparr>awaiting := False\<rparr>) = location_written s"
        by (rule location_written_fields) simp_all
      with Inl True inv show ?thesis by (simp add: Settled step.simps)
    next
      case (Inr s')
      from fetch_settled_keeps [OF Inr]
      have "location_written (s'\<lparr>awaiting := False\<rparr>) = location_written s"
        by (intro location_written_fields) simp_all
      with inv have "location_written (s'\<lparr>awaiting := False\<rparr>)" by simp
      with True Inr show ?thesis by (simp add: Settled step.simps location_written_commit)
    qed
  qed
next
  case (RouteChanged p)
  with ev show ?thesis by simp
qed

lemma run_location_written:
  "list_all identifier_event evs \<Longrightarrow> location_written s \<Longrightarrow> location_written (run s evs)"
  unfolding run_def
  by (induction evs arbitrary: s) (simp_all add: step_location_written)

lemma mounted_root_written: "location_written (useEffect_mount (Home_init ''/''))"
  by (simp add: location_written_def useEffect_mount_def Home_init_def)

lemma url_plain_root: "url_plain ''/''"
  by (simp add: url_plain_def)

lemma route_city_map: "route_city (''/map/'' @ c) = Some c"
  by (simp add: route_city_def)

lemma route_city_root: "route_city ''/'' = None"
  by (simp add: route_city_def)

lemma written_names_selected:
  assumes "location_written s" "selectedCity s = JStr c" "url_plain (''/map/'' @ c)"
  shows "map_option route_city (location_path (location s)) = Some (Some c)"
proof -
  from assms(1,2) have "location s = NavigatedTo (''/map/'' @ c)"
    by (simp add: location_written_def)
  with assms(3) have "location_path (location s) = Some (''/map/'' @ c)"
    by (simp only: location_path_def location.case if_True)
  then show ?thesis by (simp only: option.map route_city_map)
qed

lemma written_names_none:
  assumes "location_written s" "selectedCity s = JNull"
  shows "map_option route_city (location_path (location s)) = Some None"
proof -
  from assms have "location s = Reported ''/'' \<or> location s = NavigatedTo ''/''"
    by (simp add: location_written_def)
  then have "location_path (location s) = Some ''/''"
    using url_plain_root by (auto simp: location_path_def)
  then show ?thesis by (simp only: option.map route_city_root)
qed

lemma loaded_selects_nothing:
  "selectedCity (loaded_at path ids) = JNull" "frame_of (loaded_at path ids) = None"
  "location (loaded_at path ids) = Reported path"
proof -
  show a: "selectedCity (loaded_at path ids) = JNull"
    by (simp add: loaded_at_def cities_body_def run_def step.simps useEffect_mount_def Home_init_def
        fetch_settled_def then_json_def then_setCities_def data_cities_def res_ok_def
        commit_fields)
  show "frame_of (loaded_at path ids) = None"
    by (rule frame_of_falsy) (simp add: a)
  show "location (loaded_at path ids) = Reported path"
    by (simp add: loaded_at_def cities_body_def run_def step.simps useEffect_mount_def Home_init_def
        fetch_settled_def then_json_def then_setCities_def data_cities_def res_ok_def
        commit_fields)
qed

text \<open>
  Claim C6, as amended. The selection is written to the location and never read from it.
  A fresh \<open>Home\<close> has no selection whatever the path it is loaded at, also after the
  list has arrived, and shows no overlay. A change of the location from outside changes
  the location and nothing else. When the application is loaded at the root, every click
  selects an identifier and the location is not changed from outside, then after any
  sequence of events the location is the one that the code navigated to for the current
  selection; when the text \<open>/map/{city}\<close> is plain, the path of the location names the
  selected identifier, and when nothing is selected the path names no city.
\<close>

theorem selection_written_to_route:
  "selectedCity (Home_init path) = JNull \<and>
   selectedCity (loaded_at path ids) = JNull \<and>
   frame_of (loaded_at path ids) = None \<and>
   step s (RouteChanged p) = s\<lparr>location := Reported p\<rparr> \<and>
   (list_all identifier_event evs \<longrightarrow>
      location_written (run (useEffect_mount (Home_init ''/'')) evs)) \<and>
   (list_all identifier_event evs \<and>
    selectedCity (run (useEffect_mount (Home_init ''/'')) evs) = JStr c \<and>
    url_plain (''/map/'' @ c) \<longrightarrow>
      map_option route_city (location_path (location (run (useEffect_mount (Home_init ''/'')) evs)))
        = Some (Some c)) \<and>
   (list_all identifier_event evs \<and>
    selectedCity (run (useEffect_mount (Home_init ''/'')) evs) = JNull \<longrightarrow>
      map_option route_city (location_path (location (run (useEffect_mount (Home_init ''/'')) evs)))
        = Some None)"
proof (intro conjI impI)
  show "selectedCity (Home_init path) = JNull" by (simp add: Home_init_def)
  show "selectedCity (loaded_at path ids) = JNull" by (rule loaded_selects_nothing)
  show "frame_of (loaded_at path ids) = None" by (rule loaded_selects_nothing)
  show "step s (RouteChanged p) = s\<lparr>location := Reported p\<rparr>" by (simp add: step.simps)
next
  assume "list_all identifier_event evs"
  then show "location_written (run (useEffect_mount (Home_init ''/'')) evs)"
    using mounted_root_written by (rule run_location_written)
next
  assume h: "list_all identifier_event evs \<and>
    selectedCity (run (useEffect_mount (Home_init ''/'')) evs) = JStr c \<and>
    url_plain (''/map/'' @ c)"
  then have "location_written (run (useEffect_mount (Home_init ''/'')) evs)"
    using mounted_root_written by (intro run_location_written) simp_all
  with h show "map_option route_city
       (location_path (location (run (useEffect_mount (Home_init ''/'')) evs))) = Some (Some c)"
    by (intro written_names_selected) simp_all
next
  assume h: "list_all identifier_event evs \<and>
    selectedCity (run (useEffect_mount (Home_init ''/'')) evs) = JNull"
  then have "location_written (run (useEffect_mount (Home_init ''/'')) evs)"
    using mounted_root_written by (intro run_location_written) simp_all
  with h show "map_option route_city
       (location_path (location (run (useEffect_mount (Home_init ''/'')) evs))) = Some None"
    by (intro written_names_none) simp_all
qed

text \<open>
  Loaded at \<open>/map/leeds1\<close>, with \<open>leeds1\<close> in the list that \<open>/cities\<close> returned: the
  path names \<open>leeds1\<close>, no city is selected and no overlay is shown. And with the
  overlay open on \<open>leeds1\<close>, going back to the root leaves \<open>leeds1\<close> selected.
\<close>

theorem deep_link_selects_nothing:
  "location_path (location (loaded_at ''/map/leeds1'' [''leeds1''])) = Some ''/map/leeds1'' \<and>
   route_city ''/map/leeds1'' = Some ''leeds1'' \<and>
   selectedCity (loaded_at ''/map/leeds1'' [''leeds1'']) = JNull \<and>
   frame_of (loaded_at ''/map/leeds1'' [''leeds1'']) = None \<and>
   selectedCity (step (opened_on ''/'' [''leeds1'', ''leeds2''] ''leeds1'') (RouteChanged ''/''))
     = JStr ''leeds1'' \<and>
   location (step (opened_on ''/'' [''leeds1'', ''leeds2''] ''leeds1'') (RouteChanged ''/''))
     = Reported ''/''"
  by (simp add: loaded_selects_nothing location_path_def route_city_def step.simps opened_leeds1)

text \<open>
  The statement after the list has arrived and \<open>leeds1\<close> has been clicked, and before
  any event.
\<close>

theorem selection_written_to_route_witness:
  "list_all identifier_event
     [Settled (HttpResponse 200 (cities_body [''leeds1''])), Select (JStr ''leeds1'')] \<and>
   selectedCity (run (useEffect_mount (Home_init ''/''))
     [Settled (HttpResponse 200 (cities_body [''leeds1''])), Select (JStr ''leeds1'')])
     = JStr ''leeds1'' \<and>
   url_plain (''/map/'' @ ''leeds1'') \<and>
   map_option route_city (location_path (location (run (useEffect_mount (Home_init ''/''))
     [Settled (HttpResponse 200 (cities_body [''leeds1''])), Select (JStr ''leeds1'')])))
     = Some (Some ''leeds1'') \<and>
   list_all identifier_event [] \<and>
   selectedCity (run (useEffect_mount (Home_init ''/'')) []) = JNull \<and>
   map_option route_city (location_path (location (run (useEffect_mount (Home_init ''/'')) [])))
     = Some None"
proof -
  let ?evs = "[Settled (HttpResponse 200 (cities_body [''leeds1''])), Select (JStr ''leeds1'')]"
  have a: "list_all identifier_event ?evs" by simp
  have b: "selectedCity (run (useEffect_mount (Home_init ''/'')) ?evs) = JStr ''leeds1''"
    by (simp add: run_def step.simps cities_body_def useEffect_mount_def Home_init_def
        fetch_settled_def then_json_def then_setCities_def data_cities_def res_ok_def
        commit_fields handleSelect_def)
  have c: "url_plain (''/map/'' @ ''leeds1'')" by (simp add: url_plain_def)
  have d: "list_all identifier_event []" by simp
  have e: "selectedCity (run (useEffect_mount (Home_init ''/'')) []) = JNull"
    by (simp add: run_def useEffect_mount_def Home_init_def)
  from a b c d e
    selection_written_to_route [of "''/''" "[]" "Home_init ''/''" "''/''" ?evs "''leeds1''"]
    selection_written_to_route [of "''/''" "[]" "Home_init ''/''" "''/''" "[]" "''leeds1''"]
  show ?thesis by blast
qed

section \<open>The request for the city list\<close>

lemma empty_grid: "cities s = JArr l [] \<Longrightarrow> selectedCity s = JNull \<Longrightarrow> grid_labels s = Some []"
  by (simp add: grid_labels_def shown_def Home_def ThumbnailGrid_def)

lemma empty_grid_view:
  "cities s = JArr l [] \<Longrightarrow> selectedCity s = JNull \<Longrightarrow> map_option grid (shown (Home s)) = Some []"
  by (simp add: shown_def Home_def ThumbnailGrid_def)

lemma failed_fetch_logged:
  assumes "fetch_fails r"
  shows "\<exists>e. fetch_settled r (useEffect_mount (Home_init path)) =
           Inr (catch_log e (useEffect_mount (Home_init path)))"
  using assms
  by (auto simp: fetch_fails_def fetch_settled_def then_json_def then_setCities_def
      data_cities_def Let_def split: response.splits body.splits)

lemma no_member_silent:
  assumes "no_cities_member r"
  shows "fetch_settled r (useEffect_mount (Home_init path)) =
           Inr ((useEffect_mount (Home_init path))\<lparr>cities := JArr 0 []\<rparr>)"
  using assms
  by (auto simp: no_cities_member_def fetch_settled_def then_json_def then_setCities_def
      Let_def split: response.splits body.splits sum.splits option.splits)

text \<open>
  Claim C5, as amended. If the request for \<open>/cities\<close> fails (the fetch rejects, the
  status is not 2xx, the body is not JSON, or the body is \<open>null\<close>), the chain of
  handlers is fulfilled, so that nothing is thrown further; the city list is still empty;
  exactly one error has been logged; the render does not throw and the grid has no
  thumbnail; and the one request sent on mount is the only one. If the response is ok and
  its body parses to a value without a truthy \<open>cities\<close> member, the same holds except
  that nothing is logged.
\<close>

theorem failed_fetch_leaves_grid_empty:
  "(fetch_fails r \<longrightarrow>
      (\<exists>s' e. fetch_settled r (useEffect_mount (Home_init path)) = Inr s' \<and>
         cities s' = JArr 0 [] \<and>
         console s' = [ConsoleError ''Error fetching cities:'' e] \<and>
         map_option grid (shown (Home s')) = Some [] \<and>
         requests s' = [''http://localhost:8000/cities''])) \<and>
   (no_cities_member r \<longrightarrow>
      (\<exists>s'. fetch_settled r (useEffect_mount (Home_init path)) = Inr s' \<and>
         cities s' = JArr 0 [] \<and>
         console s' = [] \<and>
         map_option grid (shown (Home s')) = Some [] \<and>
         requests s' = [''http://localhost:8000/cities'']))"
proof (intro conjI impI)
  assume "fetch_fails r"
  then obtain e where e: "fetch_settled r (useEffect_mount (Home_init path)) =
           Inr (catch_log e (useEffect_mount (Home_init path)))"
    using failed_fetch_logged by blast
  let ?s' = "catch_log e (useEffect_mount (Home_init path))"
  have c: "cities ?s' = JArr 0 []" and n: "selectedCity ?s' = JNull"
    by (simp_all add: catch_log_def useEffect_mount_def Home_init_def)
  have "console ?s' = [ConsoleError ''Error fetching cities:'' e]"
    by (simp add: catch_log_def useEffect_mount_def Home_init_def)
  moreover have "map_option grid (shown (Home ?s')) = Some []"
    using c n by (rule empty_grid_view)
  moreover have "requests ?s' = [''http://localhost:8000/cities'']"
    by (simp add: catch_log_def useEffect_mount_def Home_init_def)
  ultimately show "\<exists>s' e. fetch_settled r (useEffect_mount (Home_init path)) = Inr s' \<and>
         cities s' = JArr 0 [] \<and>
         console s' = [ConsoleError ''Error fetching cities:'' e] \<and>
         map_option grid (shown (Home s')) = Some [] \<and>
         requests s' = [''http://localhost:8000/cities'']"
    using e c by blast
next
  assume "no_cities_member r"
  then have e: "fetch_settled r (useEffect_mount (Home_init path)) =
           Inr ((useEffect_mount (Home_init path))\<lparr>cities := JArr 0 []\<rparr>)"
    by (rule no_member_silent)
  let ?s' = "(useEffect_mount (Home_init path))\<lparr>cities := JArr 0 []\<rparr>"
  have c: "cities ?s' = JArr 0 []" and n: "selectedCity ?s' = JNull"
    by (simp_all add: useEffect_mount_def Home_init_def)
  have "console ?s' = []"
    by (simp add: useEffect_mount_def Home_init_def)
  moreover have "map_option grid (shown (Home ?s')) = Some []"
    using c n by (rule empty_grid_view)
  moreover have "requests ?s' = [''http://localhost:8000/cities'']"
    by (simp add: useEffect_mount_def Home_init_def)
  ultimately show "\<exists>s'. fetch_settled r (useEffect_mount (Home_init path)) = Inr s' \<and>
         cities s' = JArr 0 [] \<and>
         console s' = [] \<and>
         map_option grid (shown (Home s')) = Some [] \<and>
         requests s' = [''http://localhost:8000/cities'']"
    using e c by blast
qed

text \<open>
  The same at a response with status 500, and at a response whose body has the list
  under another name, both loaded at the root.
\<close>

theorem failed_fetch_leaves_grid_empty_witness:
  "fetch_fails (HttpResponse 500 (cities_body [''leeds1''])) \<and>
   (\<exists>s' e. fetch_settled (HttpResponse 500 (cities_body [''leeds1'']))
              (useEffect_mount (Home_init ''/'')) = Inr s' \<and>
         cities s' = JArr 0 [] \<and>
         console s' = [ConsoleError ''Error fetching cities:'' e] \<and>
         map_option grid (shown (Home s')) = Some [] \<and>
         requests s' = [''http://localhost:8000/cities'']) \<and>
   no_cities_member (HttpResponse 200 (Json (JObj 0 [(''towns'', JArr 1 [JStr ''leeds1''])]))) \<and>
   (\<exists>s'. fetch_settled (HttpResponse 200 (Json (JObj 0 [(''towns'', JArr 1 [JStr ''leeds1''])])))
              (useEffect_mount (Home_init ''/'')) = Inr s' \<and>
         cities s' = JArr 0 [] \<and>
         console s' = [] \<and>
         map_option grid (shown (Home s')) = Some [] \<and>
         requests s' = [''http://localhost:8000/cities''])"
proof -
  have a: "fetch_fails (HttpResponse 500 (cities_body [''leeds1'']))"
    by (simp add: fetch_fails_def res_ok_def)
  have b: "no_cities_member (HttpResponse 200 (Json (JObj 0 [(''towns'', JArr 1 [JStr ''leeds1''])])))"
    by (simp add: no_cities_member_def res_ok_def data_cities_def)
  from a b
    failed_fetch_leaves_grid_empty [of "HttpResponse 500 (cities_body [''leeds1''])" "''/''"]
    failed_fetch_leaves_grid_empty [of "HttpResponse 200 (Json (JObj 0 [(''towns'', JArr 1 [JStr ''leeds1''])]))" "''/''"]
  show ?thesis by blast
qed

text \<open>
  The body \<open>{}\<close> with status 200 is not of the expected shape; the list stays empty and
  nothing is logged.
\<close>

theorem body_without_cities_logs_nothing:
  "fetch_settled (HttpResponse 200 (Json (JObj 0 []))) (useEffect_mount (Home_init ''/''))
     = Inr ((useEffect_mount (Home_init ''/''))\<lparr>cities := JArr 0 []\<rparr>) \<and>
   console ((useEffect_mount (Home_init ''/''))\<lparr>cities := JArr 0 []\<rparr>) = []"
  by (simp add: fetch_settled_def then_json_def then_setCities_def data_cities_def res_ok_def
      useEffect_mount_def Home_init_def)

text \<open>
  A truthy \<open>cities\<close> member that is not an array is stored as it is, nothing is logged,
  and the next render throws in \<open>ThumbnailGrid\<close>.
\<close>

lemma fetch_stores_non_array:
  "cities (step (useEffect_mount (Home_init ''/''))
             (Settled (HttpResponse 200 (Json (JObj 0 [(''cities'', JStr ''leeds1'')])))))
     = JStr ''leeds1'' \<and>
   console (step (useEffect_mount (Home_init ''/''))
             (Settled (HttpResponse 200 (Json (JObj 0 [(''cities'', JStr ''leeds1'')]))))) = [] \<and>
   Home (step (useEffect_mount (Home_init ''/''))
             (Settled (HttpResponse 200 (Json (JObj 0 [(''cities'', JStr ''leeds1'')])))))
     = Inl NotAFunction"
  by (simp add: step.simps fetch_settled_def then_json_def then_setCities_def data_cities_def
      res_ok_def useEffect_mount_def Home_init_def commit_fields Home_commit)
     (simp add: Home_def ThumbnailGrid_def)

section \<open>The detail route\<close>

text \<open>
  Claim C7, as amended. The standalone \<open>MapView\<close> returns the inline error "Error: No
  city parameter provided." when it is rendered without a city parameter or with an empty
  one. The application does not mount it: at \<open>/map\<close> and at every path under \<open>/map/\<close>
  the router renders \<open>Home\<close>, freshly loaded at that path.
\<close>

theorem MapView_error_and_detail_route:
  "MapView None = ErrorDiv ''Error: No city parameter provided.'' \<and>
   MapView (Some []) = ErrorDiv ''Error: No city parameter provided.'' \<and>
   App ''/map'' = HomePage (Home (Home_init ''/map'')) \<and>
   App (''/map/'' @ c) = HomePage (Home (Home_init (''/map/'' @ c)))"
  by (simp add: MapView_def App_def route_matches_def suffix_def)

text \<open>
  At the detail route without an identifier, \<open>/map\<close> or \<open>/map/\<close>, the application does
  not show the error state of \<open>MapView\<close>.
\<close>

theorem detail_route_without_city_shows_no_error:
  "App ''/map'' \<noteq> MapViewPage (MapView None) \<and>
   App ''/map/'' \<noteq> MapViewPage (MapView None) \<and>
   App ''/map/'' \<noteq> MapViewPage (MapView (Some []))"
  by (simp add: App_def route_matches_def suffix_def)

text \<open>What it shows there: the empty grid of a fresh \<open>Home\<close>.\<close>

lemma fresh_Home_view:
  "Home (Home_init path) =
     Inr \<lparr>grid = [], falsy_child = Nothing, presence_mounted = False, overlay = None\<rparr>"
  by (simp add: Home_def Home_init_def ThumbnailGrid_def)

section \<open>Identifiers that the registries do not hold\<close>

text \<open>
  For an identifier that is neither a key of the registry nor the name of a property
  inherited from \<open>Object.prototype\<close>, the labels of grid and carousel show the identifier,
  the heading of the overlay shows nothing, and the paragraph shows the fallback text.
\<close>

lemma label_falls_back_to_identifier:
  assumes "c \<notin> fst ` set cityNames" "c \<notin> set Object_prototype_functions" "c \<noteq> ''__proto__''"
  shows "map_option thumb_label (shown (thumbnail_of (JStr c))) = Some (Text c)"
proof -
  from assms(1) have "map_of cityNames c = None" by (simp add: map_of_eq_None_iff)
  with assms(2,3) show ?thesis by (simp add: thumbnail_of_def shown_def js_get_def js_or_def)
qed

lemma heading_has_no_fallback:
  assumes "c \<notin> fst ` set cityNames" "c \<notin> set Object_prototype_functions" "c \<noteq> ''__proto__''"
    and "overlay_of cs (JStr c) = Inr ov"
  shows "heading ov = Nothing"
proof -
  from assms(1) have "map_of cityNames c = None" by (simp add: map_of_eq_None_iff)
  with assms(2,3,4) show ?thesis
    by (auto simp: overlay_of_def js_get_def split: if_splits sum.splits)
qed

lemma details_fall_back_to_text:
  assumes "c \<notin> fst ` set cityDetails" "c \<notin> set Object_prototype_functions" "c \<noteq> ''__proto__''"
    and "overlay_of cs (JStr c) = Inr ov"
  shows "details ov = Text ''No detailed information available.''"
proof -
  from assms(1) have "map_of cityDetails c = None" by (simp add: map_of_eq_None_iff)
  with assms(2,3,4) show ?thesis
    by (auto simp: overlay_of_def js_get_def js_or_def split: if_splits sum.splits)
qed

text \<open>
  Claim C4, on the code. With \<open>york1\<close> and \<open>york2\<close> fetched, neither of them in
  \<open>cityNames\<close>: the grid labels them with their identifiers, and with \<open>york1\<close> selected the
  carousel of the overlay labels \<open>york2\<close> with its identifier, but the heading of the
  overlay, which has no \<open>|| selectedCity\<close>, renders nothing.
\<close>

theorem overlay_heading_blank_for_unknown_city:
  "''york1'' \<notin> fst ` set cityNames \<and>
   grid_labels (loaded_at ''/'' [''york1'', ''york2'']) = Some [Text ''york1'', Text ''york2''] \<and>
   map_option (take 1) (carousel_labels (opened_on ''/'' [''york1'', ''york2''] ''york1''))
     = Some [Text ''york2''] \<and>
   map_option heading (shown_overlay (opened_on ''/'' [''york1'', ''york2''] ''york1''))
     = Some Nothing"
  by (simp add: grid_labels_def carousel_labels_def shown_overlay_def shown_def concrete_defs)

text \<open>
  Claim C9, on the code. \<open>constructor\<close> is not a key of \<open>cityDetails\<close>, yet
  \<open>cityDetails["constructor"]\<close> is the function inherited from \<open>Object.prototype\<close>, which
  is truthy: with \<open>constructor\<close> fetched and selected, the paragraph of the overlay renders
  nothing instead of the fallback text.
\<close>

theorem details_blank_for_inherited_name:
  "''constructor'' \<notin> fst ` set cityDetails \<and>
   js_get cityDetails ''constructor'' = Fun ''constructor'' \<and>
   map_option details (shown_overlay (opened_on ''/'' [''constructor''] ''constructor''))
     = Some Nothing"
  by (simp add: shown_overlay_def shown_def concrete_defs)

end
